theory Spec2Isabelle
  imports Complex_Main "HOL-Library.Sublist" "HOL-Library.Char_ord"
    "HOL-Library.List_Lexorder"
begin

section \<open>Data model\<close>

subsection \<open>Python values used by \<open>pubmed_fetch.py\<close>\<close>

text \<open>
  Every exception the program can raise is a value. \<open>HTTPError\<close> is what
  \<open>raise_for_status\<close> raises, \<open>ConnectionError\<close> stands for a transport failure
  of \<open>requests.get\<close>, \<open>JSONDecodeError\<close> for \<open>response.json()\<close> on a body
  that is not JSON, \<open>ParseError\<close> for \<open>ET.fromstring\<close> on malformed XML,
  \<open>ValueError\<close> for \<open>ET.tostring\<close> on a name that opens a namespace brace
  and never closes it, \<open>OSError\<close> for \<open>open\<close>.
\<close>

datatype error =
    HTTPError | ConnectionError | JSONDecodeError | ParseError
  | AttributeError | TypeError | ValueError | OSError

text \<open>
  An \<open>xml.etree.ElementTree.Element\<close>: tag, attributes, the text before the first
  child (\<open>None\<close> when there is none), the children in document order, and the text
  after the end tag (\<open>None\<close> when there is none). The parser writes a name that
  lies in a namespace as \<open>{uri}local\<close>, for a tag and for an attribute alike.
\<close>

datatype element =
  Element (tag: string) (attrib: "(string \<times> string) list")
          (elem_text: "string option") (children: "element list")
          (tail: "string option")

text \<open>
  A value decoded from JSON by \<open>response.json()\<close>; an object is the list of its
  items.
\<close>

datatype json =
    JNull | JBool bool | JNum real | JStr string
  | JArr "json list" | JObj "(string \<times> json) list"

text \<open>\<open>elem.iter()\<close>: the element itself, then its subtree, in document order.\<close>

fun iter :: "element \<Rightarrow> element list" where
  "iter (Element t a x cs tx) = Element t a x cs tx # concat (map iter cs)"

text \<open>
  The three path forms the program uses. \<open>.//T\<close> selects every descendant with
  tag \<open>T\<close>, the context element itself excluded; a bare \<open>T\<close> selects among the
  direct children only. \<open>find\<close> returns the first element selected, or \<open>None\<close>.
\<close>

definition findall_descendant :: "string \<Rightarrow> element \<Rightarrow> element list" where
  "findall_descendant t e = filter (\<lambda>d. tag d = t) (concat (map iter (children e)))"

definition find_descendant :: "string \<Rightarrow> element \<Rightarrow> element option" where
  "find_descendant t e = (case findall_descendant t e of [] \<Rightarrow> None | d # _ \<Rightarrow> Some d)"

definition find_child :: "string \<Rightarrow> element \<Rightarrow> element option" where
  "find_child t e = List.find (\<lambda>c. tag c = t) (children e)"

text \<open>The operator \<open>needle in haystack\<close> on two \<open>str\<close> values.\<close>

fun str_in :: "string \<Rightarrow> string \<Rightarrow> bool" where
  "str_in needle [] = (needle = [])"
| "str_in needle (c # cs) = (prefix needle (c # cs) \<or> str_in needle cs)"

text \<open>\<open>sep.join(xs)\<close> on a list of strings.\<close>

fun str_join :: "string \<Rightarrow> string list \<Rightarrow> string" where
  "str_join sep [] = []"
| "str_join sep [x] = x"
| "str_join sep (x # y # ys) = x @ sep @ str_join sep (y # ys)"

text \<open>What an f-string writes for \<open>elem.text\<close>: the text, or \<open>None\<close> spelled out.\<close>

definition format_text :: "string option \<Rightarrow> string" where
  "format_text t = (case t of None \<Rightarrow> ''None'' | Some s \<Rightarrow> s)"

section \<open>The record extractor\<close>

definition COMPANY_KEYWORDS :: "string list" where
  "COMPANY_KEYWORDS =
     [''Inc.'', ''Ltd.'', ''Pharma'', ''Biotech'', ''Corp.'', ''Therapeutics'', ''Laboratories'']"

definition ACADEMIC_KEYWORDS :: "string list" where
  "ACADEMIC_KEYWORDS =
     [''University'', ''Institute'', ''College'', ''Hospital'', ''School'', ''Academy'']"

text \<open>
  Line 75, \<open>any(keyword in affiliation for keyword in COMPANY_KEYWORDS)\<close>, for an
  affiliation that is a string.
\<close>

definition any_company_keyword :: "string \<Rightarrow> bool" where
  "any_company_keyword affiliation =
     list_ex (\<lambda>keyword. str_in keyword affiliation) COMPANY_KEYWORDS"

text \<open>Lines 68 to 70: the display name of one author node.\<close>

definition author_name :: "element \<Rightarrow> string" where
  "author_name author =
     (let last_name = find_child ''LastName'' author;
          fore_name = find_child ''ForeName'' author
      in case last_name of
           None \<Rightarrow> ''Unknown''
         | Some l \<Rightarrow>
             (case fore_name of
                None \<Rightarrow> ''Unknown''
              | Some f \<Rightarrow> format_text (elem_text f) @ '' '' @ format_text (elem_text l)))"

text \<open>
  Lines 68 to 77: the body of the loop over the author nodes, on the two lists
  built so far. When the \<open>Affiliation\<close> element has no text, \<open>affiliation\<close> is
  \<open>None\<close> and the first \<open>keyword in affiliation\<close> raises \<open>TypeError\<close>.
\<close>

fun author_body ::
  "element \<Rightarrow> string list \<times> string list \<Rightarrow> error + (string list \<times> string list)" where
  "author_body author (authors, company_affiliations) =
     (let name = author_name author in
      (case find_descendant ''Affiliation'' author of
         None \<Rightarrow> Inr (authors, company_affiliations)
       | Some affiliation_elem \<Rightarrow>
           (case elem_text affiliation_elem of
              None \<Rightarrow> Inl TypeError
            | Some affiliation \<Rightarrow>
                if any_company_keyword affiliation
                then Inr (authors @ [name], company_affiliations @ [affiliation])
                else Inr (authors, company_affiliations))))"

fun authors_loop ::
  "element list \<Rightarrow> string list \<times> string list \<Rightarrow> error + (string list \<times> string list)" where
  "authors_loop [] acc = Inr acc"
| "authors_loop (author # rest) acc =
     (case author_body author acc of
        Inl e \<Rightarrow> Inl e
      | Inr acc' \<Rightarrow> authors_loop rest acc')"

subsection \<open>The email pattern and \<open>re.search\<close>\<close>

text \<open>
  A character class is a list of ranges and single characters; the program's
  pattern is built from literals, greedy repetitions \<open>{n,}\<close> of a class (\<open>+\<close> is
  \<open>{1,}\<close>) and concatenation. Its one group spans the whole pattern, so
  \<open>group(1)\<close> is the whole match.
\<close>

datatype cls_item = Range char char | Single char

fun in_item :: "char \<Rightarrow> cls_item \<Rightarrow> bool" where
  "in_item c (Range lo hi) = (lo \<le> c \<and> c \<le> hi)"
| "in_item c (Single x) = (c = x)"

definition in_class :: "cls_item list \<Rightarrow> char \<Rightarrow> bool" where
  "in_class cls c = list_ex (in_item c) cls"

datatype regex = Lit char | Rep nat "cls_item list" | Cat regex regex

text \<open>
  The backtracking matcher: every way the pattern matches a prefix of the input, as
  (matched text, rest), in the order the engine tries them. A greedy repetition
  tries the longest run first and gives characters back one at a time.
\<close>

fun matches :: "regex \<Rightarrow> string \<Rightarrow> (string \<times> string) list" where
  "matches (Lit c) s =
     (case s of [] \<Rightarrow> [] | x # xs \<Rightarrow> if x = c then [([c], xs)] else [])"
| "matches (Rep n cls) s =
     map (\<lambda>k. (take k s, drop k s))
         (rev [n ..< Suc (length (takeWhile (in_class cls) s))])"
| "matches (Cat a b) s =
     concat (map (\<lambda>(m1, r1). map (\<lambda>(m2, r2). (m1 @ m2, r2)) (matches b r1))
                 (matches a s))"

text \<open>\<open>re.match\<close>: the first successful alternative at the start of the input.\<close>

definition re_match :: "regex \<Rightarrow> string \<Rightarrow> string option" where
  "re_match r s = (case matches r s of [] \<Rightarrow> None | (m, _) # _ \<Rightarrow> Some m)"

text \<open>\<open>re.search\<close>: the match at the leftmost start position that has one.\<close>

fun re_search :: "regex \<Rightarrow> string \<Rightarrow> string option" where
  "re_search r [] = re_match r []"
| "re_search r (c # cs) =
     (case re_match r (c # cs) of Some m \<Rightarrow> Some m | None \<Rightarrow> re_search r cs)"

definition ALNUM :: "cls_item list" where
  "ALNUM = [Range CHR ''a'' CHR ''z'', Range CHR ''A'' CHR ''Z'', Range CHR ''0'' CHR ''9'']"

text \<open>
  Line 80: \<open>([a-zA-Z0-9._%+-]+@[a-zA-Z0-9.-]+\.[a-zA-Z]{2,})\<close>, with its three
  classes named.
\<close>

definition LOCAL :: "cls_item list" where
  "LOCAL = ALNUM @ [Single CHR ''.'', Single CHR ''_'', Single CHR ''%'',
                    Single CHR ''+'', Single CHR ''-'']"

definition DOMAIN :: "cls_item list" where
  "DOMAIN = ALNUM @ [Single CHR ''.'', Single CHR ''-'']"

definition ALPHA :: "cls_item list" where
  "ALPHA = [Range CHR ''a'' CHR ''z'', Range CHR ''A'' CHR ''Z'']"

definition EMAIL_PATTERN :: regex where
  "EMAIL_PATTERN =
     Cat (Rep 1 LOCAL) (Cat (Lit CHR ''@'')
       (Cat (Rep 1 DOMAIN) (Cat (Lit CHR ''.'') (Rep 2 ALPHA))))"

subsection \<open>\<open>ET.tostring(article, encoding="unicode")\<close>\<close>

definition escape_cdata :: "string \<Rightarrow> string" where
  "escape_cdata s =
     concat (map (\<lambda>c. if c = CHR ''&'' then ''&amp;''
                       else if c = CHR ''<'' then ''&lt;''
                       else if c = CHR ''>'' then ''&gt;'' else [c]) s)"

definition escape_attrib :: "string \<Rightarrow> string" where
  "escape_attrib s =
     concat (map (\<lambda>c. if c = CHR ''&'' then ''&amp;''
                       else if c = CHR ''<'' then ''&lt;''
                       else if c = CHR ''>'' then ''&gt;''
                       else if c = CHR 0x22 then ''&quot;''
                       else if c = CHR 0x0D then ''&#13;''
                       else if c = CHR 0x0A then ''&#10;''
                       else if c = CHR 0x09 then ''&#09;'' else [c]) s)"

definition write_opt :: "string option \<Rightarrow> string" where
  "write_opt t = (case t of None \<Rightarrow> [] | Some s \<Rightarrow> escape_cdata s)"

text \<open>
  The first pass of the serialiser, \<open>_namespaces\<close>, walks the tree in document order
  and enters every tag and every attribute name it has not seen into two tables:
  \<open>qnames\<close>, from the name to the way it is written, and \<open>namespaces\<close>, from a
  namespace to its prefix. A namespace gets its well-known prefix or else \<open>ns\<close>
  followed by the number of namespaces entered so far; the \<open>xml\<close> namespace is never
  entered. Both tables are kept as lists in the order of entry.
\<close>

definition NAMESPACE_MAP :: "(string \<times> string) list" where
  "NAMESPACE_MAP =
     [(''http://www.w3.org/XML/1998/namespace'', ''xml''),
      (''http://www.w3.org/1999/xhtml'', ''html''),
      (''http://www.w3.org/1999/02/22-rdf-syntax-ns#'', ''rdf''),
      (''http://schemas.xmlsoap.org/wsdl/'', ''wsdl''),
      (''http://www.w3.org/2001/XMLSchema'', ''xs''),
      (''http://www.w3.org/2001/XMLSchema-instance'', ''xsi''),
      (''http://purl.org/dc/elements/1.1/'', ''dc'')]"

text \<open>\<open>"%d" % n\<close>.\<close>

fun decimal :: "nat \<Rightarrow> string" where
  "decimal n = (if n < 10 then [''0123456789'' ! n]
                else decimal (n div 10) @ [''0123456789'' ! (n mod 10)])"

text \<open>\<open>s.rsplit("}", 1)\<close> as a pair, or \<open>None\<close> when \<open>s\<close> holds no closing brace.\<close>

definition rsplit_brace :: "string \<Rightarrow> (string \<times> string) option" where
  "rsplit_brace s =
     (let after = takeWhile (\<lambda>c. c \<noteq> CHR ''}'') (rev s);
          before = dropWhile (\<lambda>c. c \<noteq> CHR ''}'') (rev s)
      in case before of
           [] \<Rightarrow> None
         | _ # uri \<Rightarrow> Some (rev uri, rev after))"

type_synonym names = "(string \<times> string) list \<times> (string \<times> string) list"

definition add_qname :: "string \<Rightarrow> names \<Rightarrow> error + names" where
  "add_qname qname tables =
     (case tables of (qnames, namespaces) \<Rightarrow>
        if take 1 qname = ''{''
        then (case rsplit_brace (drop 1 qname) of
                None \<Rightarrow> Inl ValueError
              | Some (uri, local) \<Rightarrow>
                  (case map_of namespaces uri of
                     Some pfx \<Rightarrow>
                       Inr (qnames @ [(qname, if pfx \<noteq> [] then pfx @ '':'' @ local
                                               else local)], namespaces)
                   | None \<Rightarrow>
                       (let pfx = (case map_of NAMESPACE_MAP uri of
                                     Some p \<Rightarrow> p
                                   | None \<Rightarrow> ''ns'' @ decimal (length namespaces))
                        in Inr (qnames @ [(qname, if pfx \<noteq> [] then pfx @ '':'' @ local
                                                   else local)],
                                if pfx \<noteq> ''xml'' then namespaces @ [(uri, pfx)]
                                else namespaces))))
        else Inr (qnames @ [(qname, qname)], namespaces))"

definition see_name :: "string \<Rightarrow> names \<Rightarrow> error + names" where
  "see_name name tables =
     (if name \<in> fst ` set (fst tables) then Inr tables else add_qname name tables)"

fun see_names :: "string list \<Rightarrow> names \<Rightarrow> error + names" where
  "see_names [] tables = Inr tables"
| "see_names (name # rest) tables =
     (case see_name name tables of
        Inl e \<Rightarrow> Inl e
      | Inr tables' \<Rightarrow> see_names rest tables')"

definition namespaces_of :: "element \<Rightarrow> error + names" where
  "namespaces_of elem =
     see_names (concat (map (\<lambda>e. tag e # map fst (attrib e)) (iter elem))) ([], [])"

text \<open>\<open>qnames[name]\<close>; every name of the tree is in the table after the first pass.\<close>

definition qname_of :: "(string \<times> string) list \<Rightarrow> string \<Rightarrow> string" where
  "qname_of qnames name = (case map_of qnames name of Some q \<Rightarrow> q | None \<Rightarrow> name)"

text \<open>
  The second pass, \<open>_serialize_xml\<close>: start tag, on the element serialised the
  declarations of the namespaces sorted by prefix, the attributes, then escaped text,
  children and end tag (or the short form \<open><t />\<close> for an element with neither text
  nor children), then the escaped tail. The children are written with no
  declarations. No XML declaration is written for the \<open>unicode\<close> encoding.
\<close>

fun serialize_xml ::
  "(string \<times> string) list \<Rightarrow> (string \<times> string) list \<Rightarrow> element \<Rightarrow> string" where
  "serialize_xml qnames namespaces (Element t a x cs tx) =
     ''<'' @ qname_of qnames t
     @ concat (map (\<lambda>(uri, pfx).
                 '' xmlns'' @ (if pfx \<noteq> [] then '':'' @ pfx else [])
                 @ ''='' @ [CHR 0x22] @ escape_attrib uri @ [CHR 0x22])
               (sort_key snd namespaces))
     @ concat (map (\<lambda>(k, v). '' '' @ qname_of qnames k @ ''='' @ [CHR 0x22]
                              @ escape_attrib v @ [CHR 0x22]) a)
     @ (if (x \<noteq> None \<and> x \<noteq> Some []) \<or> cs \<noteq> []
        then ''>'' @ write_opt x @ concat (map (serialize_xml qnames []) cs)
             @ ''</'' @ qname_of qnames t @ ''>''
        else '' />'')
     @ write_opt tx"

definition tostring :: "element \<Rightarrow> error + string" where
  "tostring elem =
     (case namespaces_of elem of
        Inl e \<Rightarrow> Inl e
      | Inr (qnames, namespaces) \<Rightarrow> Inr (serialize_xml qnames namespaces elem))"

subsection \<open>\<open>extract_authors_and_affiliations\<close>\<close>

definition extract_authors_and_affiliations ::
  "element \<Rightarrow> error + (string list \<times> string list \<times> string option)" where
  "extract_authors_and_affiliations article =
     (case authors_loop (findall_descendant ''Author'' article) ([], []) of
        Inl e \<Rightarrow> Inl e
      | Inr (authors, company_affiliations) \<Rightarrow>
          (case tostring article of
             Inl e \<Rightarrow> Inl e
           | Inr serialized \<Rightarrow>
               Inr (authors, company_affiliations, re_search EMAIL_PATTERN serialized)))"

section \<open>The fetch pipeline\<close>

subsection \<open>The environment: HTTP, decoders, file system, console\<close>

datatype param = PStr string | PInt int

record request =
  url :: string
  params :: "(string \<times> param) list"

record response =
  status_code :: int
  content :: string

text \<open>
  What the program does not compute itself is a parameter: the answer of
  \<open>requests.get\<close> to a request (or the transport error it raises), the JSON and XML
  decoders of the libraries (\<open>None\<close> when they raise) and whether \<open>open\<close> succeeds
  on a path.
\<close>

record world =
  http_get :: "request \<Rightarrow> error + response"
  json_loads :: "string \<Rightarrow> json option"
  fromstring :: "string \<Rightarrow> element option"
  can_open :: "string \<Rightarrow> bool"

text \<open>
  What the program does to the outside is the state: the requests sent, in order,
  the strings printed, in order, and the files on disk (path and content).
\<close>

record state =
  sent :: "request list"
  stdout :: "string list"
  files :: "(string \<times> string) list"

text \<open>Opening a path for writing replaces whatever file was there.\<close>

definition write_file :: "string \<Rightarrow> string \<Rightarrow> (string \<times> string) list \<Rightarrow> (string \<times> string) list" where
  "write_file path text fs = (path, text) # filter (\<lambda>(p, _). p \<noteq> path) fs"

definition print :: "string \<Rightarrow> state \<Rightarrow> state" where
  "print line s = s\<lparr>stdout := stdout s @ [line]\<rparr>"

text \<open>\<open>response.raise_for_status()\<close> raises for a 4xx or 5xx status, and only then.\<close>

definition raise_for_status :: "response \<Rightarrow> error option" where
  "raise_for_status r =
     (if 400 \<le> status_code r \<and> status_code r < 600 then Some HTTPError else None)"

subsection \<open>The decoded search answer\<close>

text \<open>\<open>d.get(key, default)\<close>; only a \<open>dict\<close> has the method.\<close>

definition dict_get :: "json \<Rightarrow> string \<Rightarrow> json \<Rightarrow> error + json" where
  "dict_get d key dflt =
     (case d of
        JObj items \<Rightarrow> Inr (case map_of items key of None \<Rightarrow> dflt | Some v \<Rightarrow> v)
      | _ \<Rightarrow> Inl AttributeError)"

text \<open>Python's truth value of a decoded JSON value, as \<open>not paper_ids\<close> tests it.\<close>

fun truthy :: "json \<Rightarrow> bool" where
  "truthy JNull = False"
| "truthy (JBool b) = b"
| "truthy (JNum x) = (x \<noteq> 0)"
| "truthy (JStr s) = (s \<noteq> [])"
| "truthy (JArr xs) = (xs \<noteq> [])"
| "truthy (JObj items) = (items \<noteq> [])"

fun str_items :: "json list \<Rightarrow> error + string list" where
  "str_items [] = Inr []"
| "str_items (JStr s # rest) =
     (case str_items rest of Inl e \<Rightarrow> Inl e | Inr ss \<Rightarrow> Inr (s # ss))"
| "str_items (_ # rest) = Inl TypeError"

text \<open>
  \<open>",".join(paper_ids)\<close>: a list must hold strings only; a string is joined
  character by character and a dict by its keys; nothing else can be iterated.
\<close>

fun join_ids :: "json \<Rightarrow> error + string" where
  "join_ids (JArr xs) =
     (case str_items xs of Inl e \<Rightarrow> Inl e | Inr ss \<Rightarrow> Inr (str_join '','' ss))"
| "join_ids (JStr s) = Inr (str_join '','' (map (\<lambda>c. [c]) s))"
| "join_ids (JObj items) = Inr (str_join '','' (map fst items))"
| "join_ids _ = Inl TypeError"

subsection \<open>\<open>fetch_papers_from_pubmed\<close>\<close>

definition PUBMED_API_BASE :: string where
  "PUBMED_API_BASE = ''https://eutils.ncbi.nlm.nih.gov/entrez/eutils/''"

text \<open>The dictionary appended for one article (lines 49 to 55).\<close>

record paper =
  PubmedID :: "string option"
  Title :: "string option"
  Non_academic_Authors :: string
  Company_Affiliations :: string
  Corresponding_Author_Email :: string

text \<open>\<open>", ".join(xs) if xs else "N/A"\<close> and \<open>corresponding_email or "N/A"\<close>.\<close>

definition join_or_na :: "string list \<Rightarrow> string" where
  "join_or_na xs = (if xs \<noteq> [] then str_join '', '' xs else ''N/A'')"

definition email_or_na :: "string option \<Rightarrow> string" where
  "email_or_na e = (case e of None \<Rightarrow> ''N/A'' | Some m \<Rightarrow> if m \<noteq> [] then m else ''N/A'')"

text \<open>Lines 43 to 55: one article becomes one dictionary, or the exception raised.\<close>

definition article_body :: "element \<Rightarrow> error + paper" where
  "article_body article =
     (case find_descendant ''PMID'' article of
        None \<Rightarrow> Inl AttributeError
      | Some pmid \<Rightarrow>
          (let paper_id = elem_text pmid;
               title = (case find_descendant ''ArticleTitle'' article of
                          None \<Rightarrow> Some ''N/A''
                        | Some title_elem \<Rightarrow> elem_text title_elem)
           in (case extract_authors_and_affiliations article of
                 Inl e \<Rightarrow> Inl e
               | Inr (authors, company_affiliations, corresponding_email) \<Rightarrow>
                   Inr \<lparr>PubmedID = paper_id, Title = title,
                        Non_academic_Authors = join_or_na authors,
                        Company_Affiliations = join_or_na company_affiliations,
                        Corresponding_Author_Email = email_or_na corresponding_email\<rparr>)))"

fun articles_loop :: "element list \<Rightarrow> paper list \<Rightarrow> error + paper list" where
  "articles_loop [] papers = Inr papers"
| "articles_loop (article # rest) papers =
     (case article_body article of
        Inl e \<Rightarrow> Inl e
      | Inr p \<Rightarrow> articles_loop rest (papers @ [p]))"

definition search_request :: "string \<Rightarrow> int \<Rightarrow> request" where
  "search_request query max_results =
     \<lparr>url = PUBMED_API_BASE @ ''esearch.fcgi'',
      params = [(''db'', PStr ''pubmed''), (''term'', PStr query),
                (''retmax'', PInt max_results), (''retmode'', PStr ''json'')]\<rparr>"

definition fetch_request :: "string \<Rightarrow> request" where
  "fetch_request ids =
     \<lparr>url = PUBMED_API_BASE @ ''efetch.fcgi'',
      params = [(''db'', PStr ''pubmed''), (''id'', PStr ids), (''retmode'', PStr ''xml'')]\<rparr>"

text \<open>Lines 30 to 57, entered once \<open>paper_ids\<close> is known to be truthy.\<close>

definition fetch_details :: "world \<Rightarrow> json \<Rightarrow> state \<Rightarrow> state \<times> (error + paper list)" where
  "fetch_details w paper_ids s =
     (case join_ids paper_ids of
        Inl e \<Rightarrow> (s, Inl e)
      | Inr ids \<Rightarrow>
          (let s2 = s\<lparr>sent := sent s @ [fetch_request ids]\<rparr> in
           (case http_get w (fetch_request ids) of
              Inl e \<Rightarrow> (s2, Inl e)
            | Inr response \<Rightarrow>
                (case raise_for_status response of
                   Some e \<Rightarrow> (s2, Inl e)
                 | None \<Rightarrow>
                     (case fromstring w (content response) of
                        None \<Rightarrow> (s2, Inl ParseError)
                      | Some xml_root \<Rightarrow>
                          (s2, articles_loop (findall_descendant ''PubmedArticle'' xml_root) []))))))"

text \<open>Lines 25 to 28: \<open>search_data.get("esearchresult", {}).get("idlist", [])\<close>.\<close>

definition get_paper_ids :: "json \<Rightarrow> error + json" where
  "get_paper_ids search_data =
     (case dict_get search_data ''esearchresult'' (JObj []) of
        Inl e \<Rightarrow> Inl e
      | Inr r \<Rightarrow> dict_get r ''idlist'' (JArr []))"

definition fetch_papers_from_pubmed ::
  "world \<Rightarrow> string \<Rightarrow> int \<Rightarrow> state \<Rightarrow> state \<times> (error + paper list)" where
  "fetch_papers_from_pubmed w query max_results s =
     (let s1 = s\<lparr>sent := sent s @ [search_request query max_results]\<rparr> in
      (case http_get w (search_request query max_results) of
         Inl e \<Rightarrow> (s1, Inl e)
       | Inr response \<Rightarrow>
           (case raise_for_status response of
              Some e \<Rightarrow> (s1, Inl e)
            | None \<Rightarrow>
                (case json_loads w (content response) of
                   None \<Rightarrow> (s1, Inl JSONDecodeError)
                 | Some search_data \<Rightarrow>
                     (case get_paper_ids search_data of
                        Inl e \<Rightarrow> (s1, Inl e)
                      | Inr paper_ids \<Rightarrow>
                          if \<not> truthy paper_ids
                          then (print ''No papers found for the query.'' s1, Inr [])
                          else fetch_details w paper_ids s1)))))"

section \<open>Output\<close>

subsection \<open>\<open>save_to_csv\<close>\<close>

definition FIELDNAMES :: "string list" where
  "FIELDNAMES = [''PubmedID'', ''Title'', ''Non-academic Authors'',
                 ''Company Affiliations'', ''Corresponding Author Email'']"

text \<open>
  The \<open>csv\<close> writer in its default dialect: \<open>None\<close> is written as the empty
  field; a field holding a comma, a double quote, a carriage return or a line feed
  is put in double quotes with its quotes doubled; fields are joined with commas and
  the row ends with CR LF.
\<close>

definition needs_quotes :: "string \<Rightarrow> bool" where
  "needs_quotes f = list_ex (\<lambda>c. c \<in> {CHR '','', CHR 0x22, CHR 0x0D, CHR 0x0A}) f"

definition csv_field :: "string option \<Rightarrow> string" where
  "csv_field v =
     (case v of
        None \<Rightarrow> []
      | Some f \<Rightarrow>
          if needs_quotes f
          then [CHR 0x22] @ concat (map (\<lambda>c. if c = CHR 0x22 then [c, c] else [c]) f) @ [CHR 0x22]
          else f)"

definition writerow :: "string option list \<Rightarrow> string" where
  "writerow row = str_join '','' (map csv_field row) @ [CHR 0x0D, CHR 0x0A]"

text \<open>The values of one dictionary in the order of the field names.\<close>

definition dict_to_list :: "paper \<Rightarrow> string option list" where
  "dict_to_list p =
     [PubmedID p, Title p, Some (Non_academic_Authors p),
      Some (Company_Affiliations p), Some (Corresponding_Author_Email p)]"

text \<open>The rows written by \<open>writeheader\<close> and \<open>writerows\<close>, one string per row.\<close>

definition csv_rows :: "paper list \<Rightarrow> string list" where
  "csv_rows data = writerow (map Some FIELDNAMES) # map (\<lambda>p. writerow (dict_to_list p)) data"

definition save_to_csv :: "world \<Rightarrow> paper list \<Rightarrow> string \<Rightarrow> state \<Rightarrow> state \<times> error option" where
  "save_to_csv w data filename s =
     (if \<not> can_open w filename then (s, Some OSError)
      else (print (''Results saved to '' @ filename)
              (s\<lparr>files := write_file filename (concat (csv_rows data)) (files s)\<rparr>), None))"

subsection \<open>\<open>print_results\<close>\<close>

definition SEPARATOR :: string where
  "SEPARATOR = CHR 0x0A # ''---------------------------------''"

definition paper_items :: "paper \<Rightarrow> (string \<times> string option) list" where
  "paper_items p = zip FIELDNAMES (dict_to_list p)"

definition print_paper :: "paper \<Rightarrow> state \<Rightarrow> state" where
  "print_paper p s =
     fold (\<lambda>(key, v). print (key @ '': '' @ format_text v)) (paper_items p)
          (print SEPARATOR s)"

definition print_results :: "paper list \<Rightarrow> state \<Rightarrow> state" where
  "print_results data s = print SEPARATOR (fold print_paper data s)"

subsection \<open>\<open>main\<close>\<close>

text \<open>
  The two command-line arguments are the inputs: the query and the optional file
  name. The result is the final state and the exception the process dies of, if any.
\<close>

definition main :: "world \<Rightarrow> string \<Rightarrow> string option \<Rightarrow> state \<Rightarrow> state \<times> error option" where
  "main w query file s =
     (case fetch_papers_from_pubmed w query 5 s of
        (s', Inl e) \<Rightarrow> (s', Some e)
      | (s', Inr papers) \<Rightarrow>
          if papers \<noteq> []
          then (case file of
                  None \<Rightarrow> (print_results papers s', None)
                | Some f \<Rightarrow>
                    if f \<noteq> [] then save_to_csv w papers f s'
                    else (print_results papers s', None))
          else (print ''No results found.'' s', None))"

section \<open>Vocabulary of the specification\<close>

text \<open>
  The words a pattern matches, independent of any matching order: a literal
  matches itself, a repetition matches at least \<open>n\<close> characters of its class, a
  concatenation matches a word of the first part followed by one of the second.
\<close>

fun lang :: "regex \<Rightarrow> string set" where
  "lang (Lit c) = {[c]}"
| "lang (Rep n cls) = {w. n \<le> length w \<and> (\<forall>c \<in> set w. in_class cls c)}"
| "lang (Cat a b) = {u @ v | u v. u \<in> lang a \<and> v \<in> lang b}"

text \<open>
  ``The first match anywhere in the text'': a word of the pattern that occurs in the
  text, such that every occurrence of a word of the pattern starts further right, or
  starts at the same place and is no longer. There is at most one such word.
\<close>

definition first_match :: "regex \<Rightarrow> string \<Rightarrow> string \<Rightarrow> bool" where
  "first_match r s m \<longleftrightarrow>
     (\<exists>pre post. s = pre @ m @ post \<and> m \<in> lang r \<and>
        (\<forall>pre' m' post'. s = pre' @ m' @ post' \<and> m' \<in> lang r
            \<longrightarrow> length pre < length pre' \<or>
                (length pre' = length pre \<and> length m' \<le> length m)))"

definition no_match :: "regex \<Rightarrow> string \<Rightarrow> bool" where
  "no_match r s \<longleftrightarrow> (\<forall>pre m post. s = pre @ m @ post \<longrightarrow> m \<notin> lang r)"

text \<open>The order on the alternatives of the matcher: less of the input is left over.\<close>

abbreviation shorter_rest :: "string \<times> string \<Rightarrow> string \<times> string \<Rightarrow> bool" where
  "shorter_rest \<equiv> (\<lambda>x y. length (snd x) < length (snd y))"

text \<open>
  The affiliation text of an author node (the text of its first \<open>Affiliation\<close>
  descendant), and the authors the classifier accepts.
\<close>

definition affiliation_text :: "element \<Rightarrow> string option" where
  "affiliation_text author =
     (case find_descendant ''Affiliation'' author of
        None \<Rightarrow> None
      | Some affiliation_elem \<Rightarrow> elem_text affiliation_elem)"

definition company_author :: "element \<Rightarrow> bool" where
  "company_author author =
     (case affiliation_text author of None \<Rightarrow> False | Some a \<Rightarrow> any_company_keyword a)"

section \<open>Example documents and environments\<close>

definition leaf :: "string \<Rightarrow> string option \<Rightarrow> element" where
  "leaf t x = Element t [] x [] None"

definition node :: "string \<Rightarrow> element list \<Rightarrow> element" where
  "node t cs = Element t [] None cs None"

definition affiliation_info :: "string option \<Rightarrow> element" where
  "affiliation_info a = node ''AffiliationInfo'' [leaf ''Affiliation'' a]"

definition jane_doe :: element where
  "jane_doe = node ''Author''
     [leaf ''LastName'' (Some ''Doe''), leaf ''ForeName'' (Some ''Jane''),
      affiliation_info (Some ''Acme Pharma Inc.'')]"

definition john_roe :: element where
  "john_roe = node ''Author''
     [leaf ''LastName'' (Some ''Roe''), leaf ''ForeName'' (Some ''John''),
      affiliation_info (Some ''State University'')]"

text \<open>No \<open>ForeName\<close> element at all.\<close>

definition poe :: element where
  "poe = node ''Author''
     [leaf ''LastName'' (Some ''Poe''), affiliation_info (Some ''Zed Biotech'')]"

text \<open>The keywords in lower case only.\<close>

definition lee_low :: element where
  "lee_low = node ''Author''
     [leaf ''LastName'' (Some ''Low''), leaf ''ForeName'' (Some ''Lee''),
      affiliation_info (Some ''acme pharma inc'')]"

text \<open>A \<open>ForeName\<close> element without text, as \<open><ForeName/>\<close> parses.\<close>

definition blank_forename :: element where
  "blank_forename = node ''Author''
     [leaf ''LastName'' (Some ''Doe''), leaf ''ForeName'' None,
      affiliation_info (Some ''Acme Pharma Inc.'')]"

text \<open>An \<open>Affiliation\<close> element without text, as \<open><Affiliation/>\<close> parses.\<close>

definition blank_affiliation :: element where
  "blank_affiliation = node ''Author''
     [leaf ''LastName'' (Some ''Doe''), leaf ''ForeName'' (Some ''Jane''),
      affiliation_info None]"

definition pubmed_article :: "element list \<Rightarrow> string \<Rightarrow> element list \<Rightarrow> element" where
  "pubmed_article pmid title authors =
     node ''PubmedArticle''
       [node ''MedlineCitation''
          (pmid @ [node ''Article''
                     [leaf ''ArticleTitle'' (Some title), node ''AuthorList'' authors]])]"

definition article_111 :: element where
  "article_111 = pubmed_article [leaf ''PMID'' (Some ''111'')] ''Trial'' [jane_doe]"

definition article_333 :: element where
  "article_333 =
     pubmed_article [leaf ''PMID'' (Some ''333'')] ''Three authors'' [jane_doe, john_roe, poe]"

text \<open>An address in the abstract; no title and no author node.\<close>

definition article_444 :: element where
  "article_444 = node ''PubmedArticle''
     [leaf ''PMID'' (Some ''444''), leaf ''AbstractText'' (Some ''Ask lab@example.org now'')]"

text \<open>No \<open>PMID\<close> element.\<close>

definition article_no_pmid :: element where
  "article_no_pmid = pubmed_article [] ''Survey'' [john_roe]"

text \<open>
  A title that begins with markup, \<open><ArticleTitle><i>E. coli</i> in trials</ArticleTitle>\<close>:
  the title element has a child and no text of its own.
\<close>

definition title_556 :: element where
  "title_556 =
     Element ''ArticleTitle'' [] None
       [Element ''i'' [] (Some ''E. coli'') [] (Some '' in trials'')] None"

definition article_556 :: element where
  "article_556 =
     node ''PubmedArticle''
       [node ''MedlineCitation''
          [leaf ''PMID'' (Some ''556''),
           node ''Article'' [title_556, node ''AuthorList'' [john_roe]]]]"

text \<open>
  An element in a namespace whose name holds an address, as
  \<open><PubmedArticle xmlns:m="urn:first@ns.example">\<close> with a child \<open>m:math\<close> parses.
\<close>

definition article_777 :: element where
  "article_777 = node ''PubmedArticle''
     [leaf ''PMID'' (Some ''777''),
      leaf ''{urn:first@ns.example}math'' (Some ''body@example.org'')]"

definition paper_111 :: paper where
  "paper_111 = \<lparr>PubmedID = Some ''111'', Title = Some ''Trial'',
                 Non_academic_Authors = ''Jane Doe'',
                 Company_Affiliations = ''Acme Pharma Inc.'',
                 Corresponding_Author_Email = ''N/A''\<rparr>"

definition paper_333 :: paper where
  "paper_333 = \<lparr>PubmedID = Some ''333'', Title = Some ''Three authors'',
                 Non_academic_Authors = ''Jane Doe, Unknown'',
                 Company_Affiliations = ''Acme Pharma Inc., Zed Biotech'',
                 Corresponding_Author_Email = ''N/A''\<rparr>"

definition paper_444 :: paper where
  "paper_444 = \<lparr>PubmedID = Some ''444'', Title = Some ''N/A'',
                 Non_academic_Authors = ''N/A'', Company_Affiliations = ''N/A'',
                 Corresponding_Author_Email = ''lab@example.org''\<rparr>"

definition paper_556 :: paper where
  "paper_556 = \<lparr>PubmedID = Some ''556'', Title = None,
                 Non_academic_Authors = ''N/A'', Company_Affiliations = ''N/A'',
                 Corresponding_Author_Email = ''N/A''\<rparr>"

definition paper_777 :: paper where
  "paper_777 = \<lparr>PubmedID = Some ''777'', Title = Some ''N/A'',
                 Non_academic_Authors = ''N/A'', Company_Affiliations = ''N/A'',
                 Corresponding_Author_Email = ''first@ns.example''\<rparr>"

text \<open>The serialised element holds no at sign.\<close>

definition without_at :: "element \<Rightarrow> bool" where
  "without_at a = (case tostring a of Inl e \<Rightarrow> False | Inr s \<Rightarrow> CHR ''@'' \<notin> set s)"

text \<open>Two authors, the second with an \<open>Affiliation\<close> element without text.\<close>

definition article_555 :: element where
  "article_555 =
     pubmed_article [leaf ''PMID'' (Some ''555'')] ''Blank'' [jane_doe, blank_affiliation]"

definition article_set :: "element list \<Rightarrow> element" where
  "article_set articles = node ''PubmedArticleSet'' articles"

definition id_list :: "string list \<Rightarrow> json" where
  "id_list ids = JObj [(''esearchresult'', JObj [(''idlist'', JArr (map JStr ids))])]"

text \<open>
  An environment that answers the search request with the given status and decoded
  body, every other request with the given status and parsed document, and lets
  every file be opened.
\<close>

definition example_world :: "int \<Rightarrow> json \<Rightarrow> int \<Rightarrow> element \<Rightarrow> world" where
  "example_world status1 search_data status2 xml_root =
     \<lparr>http_get = (\<lambda>req. if url req = PUBMED_API_BASE @ ''esearch.fcgi''
                        then Inr \<lparr>status_code = status1, content = ''search body''\<rparr>
                        else Inr \<lparr>status_code = status2, content = ''fetch body''\<rparr>),
      json_loads = (\<lambda>body. if body = ''search body'' then Some search_data else None),
      fromstring = (\<lambda>body. if body = ''fetch body'' then Some xml_root else None),
      can_open = (\<lambda>path. True)\<rparr>"

definition initial :: state where
  "initial = \<lparr>sent = [], stdout = [], files = []\<rparr>"

section \<open>Lemmas\<close>

subsection \<open>Substrings and the classifier\<close>

lemma str_in_sublist: "str_in needle haystack \<longleftrightarrow> sublist needle haystack"
  by (induction haystack) (auto simp: sublist_Cons_right)

lemma any_company_keyword_iff:
  "any_company_keyword a \<longleftrightarrow> (\<exists>kw \<in> set COMPANY_KEYWORDS. \<exists>pre post. a = pre @ kw @ post)"
  by (simp add: any_company_keyword_def list_ex_iff str_in_sublist sublist_def)

subsection \<open>The loop over the author nodes\<close>

lemma author_body_cases:
  "author_body author (xs, ys) =
     (case affiliation_text author of
        None \<Rightarrow> (if find_descendant ''Affiliation'' author = None then Inr (xs, ys)
                 else Inl TypeError)
      | Some a \<Rightarrow> if company_author author then Inr (xs @ [author_name author], ys @ [a])
                 else Inr (xs, ys))"
  by (simp add: affiliation_text_def company_author_def split: option.splits)

lemma author_without_affiliation_skipped:
  "find_descendant ''Affiliation'' author = None \<Longrightarrow> author_body author acc = Inr acc"
  by (cases acc) simp

lemma author_with_empty_affiliation_skipped:
  assumes "find_descendant ''Affiliation'' author = Some affiliation_elem"
    and "elem_text affiliation_elem = Some []"
  shows "author_body author acc = Inr acc"
  using assms by (cases acc) (simp add: any_company_keyword_def COMPANY_KEYWORDS_def)

lemma authors_loop_parallel:
  "authors_loop as (xs, ys) = Inr (xs', ys') \<Longrightarrow>
     xs' = xs @ map author_name (filter company_author as) \<and>
     map Some ys' = map Some ys @ map affiliation_text (filter company_author as)"
proof (induction as arbitrary: xs ys)
  case Nil
  then show ?case by simp
next
  case (Cons a as)
  show ?case
  proof (cases "company_author a")
    case True
    then obtain t where t: "affiliation_text a = Some t"
      by (auto simp: company_author_def split: option.splits)
    with True Cons.prems have "authors_loop as (xs @ [author_name a], ys @ [t]) = Inr (xs', ys')"
      by (simp add: author_body_cases del: author_body.simps)
    from Cons.IH [OF this] True t show ?thesis by simp
  next
    case False
    with Cons.prems have "authors_loop as (xs, ys) = Inr (xs', ys')"
      by (auto simp: author_body_cases company_author_def simp del: author_body.simps
               split: option.splits if_splits)
    from Cons.IH [OF this] False show ?thesis by simp
  qed
qed

subsection \<open>The matcher finds exactly the words of the pattern\<close>

lemma run_prefix:
  assumes "k \<le> length (takeWhile P s)"
  shows "length (take k s) = k \<and> (\<forall>c \<in> set (take k s). P c)"
proof -
  have le: "length (takeWhile P s) \<le> length s" by (rule length_takeWhile_le)
  have "take k s = take k (takeWhile P s @ dropWhile P s)" by simp
  also have "\<dots> = take k (takeWhile P s)"
    using assms by (simp del: takeWhile_dropWhile_id)
  finally have "set (take k s) \<subseteq> set (takeWhile P s)" by (simp add: set_take_subset)
  then have "\<forall>c \<in> set (take k s). P c" by (auto dest: set_takeWhileD)
  with assms le show ?thesis by simp
qed

lemma run_longest:
  assumes "\<forall>c \<in> set m. P c"
  shows "length m \<le> length (takeWhile P (m @ rest))"
  using assms by (simp add: takeWhile_append2)

lemma matches_Rep:
  "(m, rest) \<in> set (matches (Rep n cls) s) \<longleftrightarrow> s = m @ rest \<and> m \<in> lang (Rep n cls)"
proof
  assume "(m, rest) \<in> set (matches (Rep n cls) s)"
  then obtain k where k: "n \<le> k" "k \<le> length (takeWhile (in_class cls) s)"
    and m: "m = take k s" and r: "rest = drop k s"
    by auto
  from run_prefix [OF k(2)] k(1) m r show "s = m @ rest \<and> m \<in> lang (Rep n cls)"
    by simp
next
  assume a: "s = m @ rest \<and> m \<in> lang (Rep n cls)"
  then have "length m \<le> length (takeWhile (in_class cls) s)"
    using run_longest [of m "in_class cls" rest] by simp
  moreover from a have "n \<le> length m" by simp
  moreover from a have "m = take (length m) s" "rest = drop (length m) s" by simp_all
  ultimately show "(m, rest) \<in> set (matches (Rep n cls) s)"
    by (auto simp: image_iff intro!: bexI [of _ "length m"])
qed

lemma matches_iff:
  "(m, rest) \<in> set (matches r s) \<longleftrightarrow> s = m @ rest \<and> m \<in> lang r"
proof (induction r arbitrary: m rest s)
  case (Lit c)
  show ?case by (cases s) auto
next
  case (Rep n cls)
  show ?case by (rule matches_Rep)
next
  case (Cat a b)
  show ?case
  proof
    assume "(m, rest) \<in> set (matches (Cat a b) s)"
    then obtain m1 r1 m2 where "(m1, r1) \<in> set (matches a s)"
      "(m2, rest) \<in> set (matches b r1)" "m = m1 @ m2"
      by auto
    with Cat.IH show "s = m @ rest \<and> m \<in> lang (Cat a b)" by auto
  next
    assume "s = m @ rest \<and> m \<in> lang (Cat a b)"
    then obtain u v where uv: "m = u @ v" "u \<in> lang a" "v \<in> lang b" "s = u @ v @ rest"
      by auto
    then have "(u, v @ rest) \<in> set (matches a s)" "(v, rest) \<in> set (matches b (v @ rest))"
      using Cat.IH by simp_all
    with uv(1) show "(m, rest) \<in> set (matches (Cat a b) s)"
      by force
  qed
qed

lemma re_match_Some:
  assumes "re_match r s = Some m"
  shows "\<exists>rest. s = m @ rest \<and> m \<in> lang r"
proof -
  from assms obtain rest ms where "matches r s = (m, rest) # ms"
    by (auto simp: re_match_def split: list.splits)
  then have "(m, rest) \<in> set (matches r s)" by simp
  then show ?thesis by (auto simp: matches_iff)
qed

lemma re_match_None:
  assumes "re_match r s = None" and "s = m @ rest"
  shows "m \<notin> lang r"
proof
  assume "m \<in> lang r"
  with assms(2) have "(m, rest) \<in> set (matches r s)" by (simp add: matches_iff)
  moreover from assms(1) have "matches r s = []"
    by (auto simp: re_match_def split: list.splits)
  ultimately show False by simp
qed

lemma re_search_Some:
  "re_search r s = Some m \<Longrightarrow>
     \<exists>pre post. s = pre @ m @ post \<and> re_match r (m @ post) = Some m \<and>
       (\<forall>pre' m' post'. s = pre' @ m' @ post' \<and> m' \<in> lang r
           \<longrightarrow> length pre \<le> length pre')"
proof (induction s)
  case Nil
  then have "re_match r [] = Some m" by simp
  moreover from this have "m = []" using re_match_Some [of r "[]" m] by simp
  ultimately show ?case by (intro exI [of _ "[]"]) simp
next
  case (Cons c cs)
  show ?case
  proof (cases "re_match r (c # cs)")
    case (Some m0)
    with Cons.prems have h: "re_match r (c # cs) = Some m" by simp
    then obtain rest where "c # cs = m @ rest" using re_match_Some [of r "c # cs" m] by auto
    with h show ?thesis by (intro exI [of _ "[]"] exI [of _ rest]) simp
  next
    case None
    with Cons.prems have "re_search r cs = Some m" by simp
    from Cons.IH [OF this] obtain pre post
      where p: "cs = pre @ m @ post" "re_match r (m @ post) = Some m"
      and least: "\<And>pre' m' post'. cs = pre' @ m' @ post' \<Longrightarrow> m' \<in> lang r
                    \<Longrightarrow> length pre \<le> length pre'"
      by blast
    have "length (c # pre) \<le> length pre'"
      if "c # cs = pre' @ m' @ post'" "m' \<in> lang r" for pre' m' post'
    proof (cases pre')
      case Nil
      with that re_match_None [OF None, of m' post'] show ?thesis by simp
    next
      case (Cons x xs)
      with that have "cs = xs @ m' @ post'" by simp
      from least [OF this that(2)] Cons show ?thesis by simp
    qed
    with p show ?thesis by (intro exI [of _ "c # pre"] exI [of _ post]) auto
  qed
qed

lemma re_search_occurs:
  assumes "re_search r s = Some m"
  shows "\<exists>pre post. s = pre @ m @ post \<and> m \<in> lang r"
proof -
  from re_search_Some [OF assms] obtain pre post
    where "s = pre @ m @ post" "re_match r (m @ post) = Some m" by blast
  with re_match_Some [of r "m @ post" m] show ?thesis by auto
qed

lemma re_search_None: "re_search r s = None \<Longrightarrow> no_match r s"
proof (induction s)
  case Nil
  then have "re_match r [] = None" by simp
  from re_match_None [OF this] show ?case by (auto simp: no_match_def)
next
  case (Cons c cs)
  then have n: "re_match r (c # cs) = None" and "re_search r cs = None"
    by (auto split: option.splits)
  then have nm: "no_match r cs" using Cons.IH by simp
  show ?case unfolding no_match_def
  proof (intro allI impI)
    fix pre m post assume e: "c # cs = pre @ m @ post"
    show "m \<notin> lang r"
    proof (cases pre)
      case Nil
      with e re_match_None [OF n, of m post] show ?thesis by simp
    next
      case (Cons x xs)
      with e have "cs = xs @ m @ post" by simp
      with nm show ?thesis unfolding no_match_def by blast
    qed
  qed
qed

lemma first_match_unique:
  assumes "first_match r s m" and "first_match r s m'"
  shows "m = m'"
proof -
  from assms(1) obtain pre post where a: "s = pre @ m @ post" "m \<in> lang r"
    and la: "\<And>p x q. s = p @ x @ q \<Longrightarrow> x \<in> lang r \<Longrightarrow>
               length pre < length p \<or> (length p = length pre \<and> length x \<le> length m)"
    unfolding first_match_def by blast
  from assms(2) obtain pre' post' where b: "s = pre' @ m' @ post'" "m' \<in> lang r"
    and lb: "\<And>p x q. s = p @ x @ q \<Longrightarrow> x \<in> lang r \<Longrightarrow>
               length pre' < length p \<or> (length p = length pre' \<and> length x \<le> length m')"
    unfolding first_match_def by blast
  from la [OF b] lb [OF a] have l: "length pre = length pre'" "length m = length m'"
    by auto
  from a(1) b(1) have "pre @ m @ post = pre' @ m' @ post'" by simp
  with l show ?thesis by simp
qed

subsection \<open>The alternatives of the email pattern come longest first\<close>

lemma sorted_wrt_concat_map:
  assumes "\<And>x. x \<in> set xs \<Longrightarrow> sorted_wrt P (f x)"
    and "sorted_wrt (\<lambda>x y. \<forall>a \<in> set (f x). \<forall>b \<in> set (f y). P a b) xs"
  shows "sorted_wrt P (concat (map f xs))"
  using assms by (induction xs) (auto simp: sorted_wrt_append)

lemma Rep_upt: "sorted_wrt (\<lambda>j k. k < j) (rev [n ..< Suc N])"
  by (simp only: sorted_wrt_rev sorted_wrt_upt)

lemma matches_Rep_sorted: "sorted_wrt shorter_rest (matches (Rep n cls) s)"
proof -
  let ?N = "length (takeWhile (in_class cls) s)"
  have le: "?N \<le> length s" by (rule length_takeWhile_le)
  have "sorted_wrt (\<lambda>j k. shorter_rest (take j s, drop j s) (take k s, drop k s))
          (rev [n ..< Suc ?N])"
  proof (rule sorted_wrt_mono_rel [OF _ Rep_upt])
    fix j k assume "j \<in> set (rev [n ..< Suc ?N])" "k \<in> set (rev [n ..< Suc ?N])" "k < j"
    with le show "shorter_rest (take j s, drop j s) (take k s, drop k s)"
      by auto
  qed
  then show ?thesis by (simp add: sorted_wrt_map)
qed

lemma matches_Cat_blocks:
  "matches (Cat a b) s =
     concat (map (\<lambda>x. map (\<lambda>y. (fst x @ fst y, snd y)) (matches b (snd x))) (matches a s))"
  by (simp add: case_prod_unfold)

lemma block_sorted:
  assumes "sorted_wrt shorter_rest (matches b r)"
  shows "sorted_wrt shorter_rest (map (\<lambda>y. (m @ fst y, snd y)) (matches b r))"
  using assms by (simp add: sorted_wrt_map)

lemma matches_Lit_Cat_sorted:
  assumes "\<And>r. sorted_wrt shorter_rest (matches b r)"
  shows "sorted_wrt shorter_rest (matches (Cat (Lit c) b) s)"
proof (cases s)
  case Nil
  then show ?thesis by simp
next
  case (Cons x xs)
  with block_sorted [OF assms, of "[c]" xs] show ?thesis
    by (simp add: case_prod_unfold)
qed

lemma matches_Rep_Cat_sorted:
  assumes inner: "\<And>r. sorted_wrt shorter_rest (matches b r)"
    and cross: "\<And>j k x y. k < j \<Longrightarrow> j \<le> length (takeWhile (in_class cls) s) \<Longrightarrow>
        x \<in> set (matches b (drop j s)) \<Longrightarrow> y \<in> set (matches b (drop k s)) \<Longrightarrow>
        shorter_rest x y"
  shows "sorted_wrt shorter_rest (matches (Cat (Rep n cls) b) s)"
proof -
  let ?N = "length (takeWhile (in_class cls) s)"
  let ?block = "\<lambda>k. map (\<lambda>y. (take k s @ fst y, snd y)) (matches b (drop k s))"
  have eq: "matches (Cat (Rep n cls) b) s = concat (map ?block (rev [n ..< Suc ?N]))"
    unfolding matches_Cat_blocks by (simp add: comp_def)
  have "sorted_wrt (\<lambda>j k. \<forall>x \<in> set (?block j). \<forall>y \<in> set (?block k). shorter_rest x y)
          (rev [n ..< Suc ?N])"
  proof (rule sorted_wrt_mono_rel [OF _ Rep_upt])
    fix j k assume "j \<in> set (rev [n ..< Suc ?N])" "k \<in> set (rev [n ..< Suc ?N])" "k < j"
    then have "k < j" "j \<le> ?N" by auto
    from cross [OF this]
    show "\<forall>x \<in> set (?block j). \<forall>y \<in> set (?block k). shorter_rest x y"
      by auto
  qed
  with block_sorted [OF inner] show ?thesis
    unfolding eq by (intro sorted_wrt_concat_map) simp_all
qed

lemma dot_not_alpha: "\<not> in_class ALPHA CHR ''.''"
  by (simp add: ALPHA_def in_class_def)

lemma at_not_local: "\<not> in_class LOCAL CHR ''@''"
  by (simp add: LOCAL_def ALNUM_def in_class_def)

lemma tld_sorted:
  "sorted_wrt shorter_rest (matches (Cat (Lit CHR ''.'') (Rep 2 ALPHA)) r)"
  by (rule matches_Lit_Cat_sorted) (rule matches_Rep_sorted)

text \<open>
  Giving characters of the domain back can only shorten the match: the letters after
  an earlier dot end before the later dot.
\<close>

lemma tld_cross:
  assumes "k < j"
    and x: "x \<in> set (matches (Cat (Lit CHR ''.'') (Rep 2 ALPHA)) (drop j s))"
    and y: "y \<in> set (matches (Cat (Lit CHR ''.'') (Rep 2 ALPHA)) (drop k s))"
  shows "shorter_rest x y"
proof -
  from x obtain t where dj: "drop j s = CHR ''.'' # t @ snd x"
    using matches_iff [of "fst x" "snd x" "Cat (Lit CHR ''.'') (Rep 2 ALPHA)" "drop j s"]
    by auto
  from y obtain t' where dk: "drop k s = CHR ''.'' # t' @ snd y"
    and al: "\<forall>c \<in> set t'. in_class ALPHA c"
    using matches_iff [of "fst y" "snd y" "Cat (Lit CHR ''.'') (Rep 2 ALPHA)" "drop k s"]
    by auto
  have bound: "k + 1 + length t' \<le> j"
  proof (rule ccontr)
    assume "\<not> k + 1 + length t' \<le> j"
    with \<open>k < j\<close> have i: "j - k - 1 < length t'" by simp
    have "drop j s = drop (j - k) (drop k s)" using \<open>k < j\<close> by simp
    also have "\<dots> = drop (j - k - 1) (t' @ snd y)"
      using \<open>k < j\<close> unfolding dk by (cases "j - k") simp_all
    finally have "hd (drop j s) = hd (drop (j - k - 1) (t' @ snd y))" by simp
    also have "\<dots> = t' ! (j - k - 1)"
      using i by (simp add: hd_drop_conv_nth nth_append)
    finally have "t' ! (j - k - 1) = CHR ''.''" unfolding dj by simp
    moreover from i al have "in_class ALPHA (t' ! (j - k - 1))" by simp
    ultimately show False using dot_not_alpha by simp
  qed
  have "length (drop j s) = Suc (length t + length (snd x))" unfolding dj by simp
  moreover have "length (drop k s) = Suc (length t' + length (snd y))" unfolding dk by simp
  ultimately show ?thesis using bound by simp
qed

lemma domain_sorted:
  "sorted_wrt shorter_rest
     (matches (Cat (Rep 1 DOMAIN) (Cat (Lit CHR ''.'') (Rep 2 ALPHA))) r)"
  by (rule matches_Rep_Cat_sorted [OF tld_sorted tld_cross])

text \<open>Nothing can be given back from the local part: what follows must be the at sign.\<close>

lemma local_cross:
  assumes "k < j" and "j \<le> length (takeWhile (in_class LOCAL) s)"
    and y: "y \<in> set (matches (Cat (Lit CHR ''@'') b) (drop k s))"
  shows "shorter_rest x y"
proof -
  from assms(1,2) have k: "k < length (takeWhile (in_class LOCAL) s)" by simp
  then have "takeWhile (in_class LOCAL) s ! k \<in> set (takeWhile (in_class LOCAL) s)"
    by (rule nth_mem)
  then have "in_class LOCAL (takeWhile (in_class LOCAL) s ! k)"
    by (auto dest: set_takeWhileD)
  with k have l: "in_class LOCAL (s ! k)" by (simp add: takeWhile_nth)
  from k have ks: "k < length s"
    using length_takeWhile_le [of "in_class LOCAL" s] by simp
  from y obtain u where "drop k s = CHR ''@'' # u"
    using matches_iff [of "fst y" "snd y" "Cat (Lit CHR ''@'') b" "drop k s"] by auto
  then have "hd (drop k s) = CHR ''@''" by simp
  with ks have "s ! k = CHR ''@''" by (simp add: hd_drop_conv_nth)
  with l at_not_local show ?thesis by simp
qed

lemma email_matches_sorted: "sorted_wrt shorter_rest (matches EMAIL_PATTERN s)"
  unfolding EMAIL_PATTERN_def
proof (rule matches_Rep_Cat_sorted)
  show "sorted_wrt shorter_rest
     (matches (Cat (Lit CHR ''@'')
        (Cat (Rep 1 DOMAIN) (Cat (Lit CHR ''.'') (Rep 2 ALPHA)))) r)" for r
    by (rule matches_Lit_Cat_sorted) (rule domain_sorted)
qed (rule local_cross)

lemma email_match_longest:
  assumes "re_match EMAIL_PATTERN s = Some m"
    and "s = m' @ rest'" and "m' \<in> lang EMAIL_PATTERN"
  shows "length m' \<le> length m"
proof -
  from assms(1) obtain rest ms where ms: "matches EMAIL_PATTERN s = (m, rest) # ms"
    by (auto simp: re_match_def split: list.splits)
  then have "(m, rest) \<in> set (matches EMAIL_PATTERN s)" by simp
  then have s: "s = m @ rest" by (simp add: matches_iff)
  from assms(2,3) have "(m', rest') \<in> set (matches EMAIL_PATTERN s)"
    by (simp add: matches_iff)
  with ms have "(m', rest') = (m, rest) \<or> (m', rest') \<in> set ms" by simp
  moreover from email_matches_sorted [of s] ms
  have "\<forall>y \<in> set ms. length rest < length (snd y)" by simp
  ultimately have "length rest \<le> length rest'" by auto
  moreover from s assms(2) have "length m + length rest = length m' + length rest'"
    by (metis length_append)
  ultimately show ?thesis by simp
qed

lemma email_search_first_match:
  assumes "re_search EMAIL_PATTERN s = Some m"
  shows "first_match EMAIL_PATTERN s m"
proof -
  from re_search_Some [OF assms] obtain pre post
    where p: "s = pre @ m @ post" and h: "re_match EMAIL_PATTERN (m @ post) = Some m"
    and least: "\<And>pre' m' post'. s = pre' @ m' @ post' \<Longrightarrow> m' \<in> lang EMAIL_PATTERN
                  \<Longrightarrow> length pre \<le> length pre'"
    by blast
  from h have m: "m \<in> lang EMAIL_PATTERN" using re_match_Some [of EMAIL_PATTERN "m @ post" m]
    by auto
  have "length pre < length pre' \<or> (length pre' = length pre \<and> length m' \<le> length m)"
    if o: "s = pre' @ m' @ post'" "m' \<in> lang EMAIL_PATTERN" for pre' m' post'
  proof (cases "length pre < length pre'")
    case True
    then show ?thesis ..
  next
    case False
    with least [OF o] have l: "length pre' = length pre" by simp
    with p o(1) have "m @ post = m' @ post'" by simp
    from email_match_longest [OF h this o(2)] l show ?thesis by simp
  qed
  with p m show ?thesis unfolding first_match_def by blast
qed

lemma email_has_at: "m \<in> lang EMAIL_PATTERN \<Longrightarrow> CHR ''@'' \<in> set m"
  by (auto simp: EMAIL_PATTERN_def)

lemma email_nonempty: "m \<in> lang EMAIL_PATTERN \<Longrightarrow> m \<noteq> []"
  by (auto dest: email_has_at)

lemma re_search_no_at:
  assumes "CHR ''@'' \<notin> set s"
  shows "re_search EMAIL_PATTERN s = None"
proof (cases "re_search EMAIL_PATTERN s")
  case None
  then show ?thesis .
next
  case (Some m)
  from re_search_occurs [OF this] obtain pre post
    where "s = pre @ m @ post" "m \<in> lang EMAIL_PATTERN" by blast
  with email_has_at [of m] assms show ?thesis by auto
qed

lemma extracted_email_nonempty:
  assumes "extract_authors_and_affiliations article = Inr (authors, company_affiliations, Some m)"
  shows "m \<noteq> []"
proof -
  from assms obtain serialized where "re_search EMAIL_PATTERN serialized = Some m"
    by (auto simp: extract_authors_and_affiliations_def split: sum.splits)
  from re_search_occurs [OF this] have "m \<in> lang EMAIL_PATTERN" by blast
  then show ?thesis by (rule email_nonempty)
qed

subsection \<open>The loop over the articles and the two requests\<close>

lemma article_body_no_pmid:
  "find_descendant ''PMID'' article = None \<Longrightarrow> article_body article = Inl AttributeError"
  by (simp add: article_body_def)

lemma article_body_fields:
  assumes "article_body article = Inr p"
    and "extract_authors_and_affiliations article = Inr (authors, company_affiliations, email)"
  shows "Non_academic_Authors p = join_or_na authors"
    and "Company_Affiliations p = join_or_na company_affiliations"
    and "Corresponding_Author_Email p = email_or_na email"
    and "find_descendant ''ArticleTitle'' article = None \<Longrightarrow> Title p = Some ''N/A''"
    and "find_descendant ''PMID'' article = Some pmid \<Longrightarrow> PubmedID p = elem_text pmid"
  using assms by (auto simp: article_body_def split: option.splits)

lemma articles_loop_error:
  "article \<in> set articles \<Longrightarrow> article_body article = Inl e0 \<Longrightarrow>
     \<exists>e. articles_loop articles papers = Inl e"
proof (induction articles arbitrary: papers)
  case Nil
  then show ?case by simp
next
  case (Cons a as)
  show ?case
  proof (cases "article_body a")
    case (Inl e)
    then show ?thesis by simp
  next
    case (Inr p)
    with Cons.prems have "article \<in> set as" by auto
    from Cons.IH [OF this Cons.prems(2)] Inr show ?thesis by simp
  qed
qed

lemma fetch_details_parsed:
  assumes "join_ids paper_ids = Inr ids"
    and "http_get w (fetch_request ids) = Inr response'"
    and "raise_for_status response' = None"
    and "fromstring w (content response') = Some xml_root"
  shows "fetch_details w paper_ids s =
           (s\<lparr>sent := sent s @ [fetch_request ids]\<rparr>,
            articles_loop (findall_descendant ''PubmedArticle'' xml_root) [])"
  using assms by (simp add: fetch_details_def)

lemma fetch_papers_found:
  assumes "http_get w (search_request query n) = Inr response"
    and "raise_for_status response = None"
    and "json_loads w (content response) = Some search_data"
    and "get_paper_ids search_data = Inr paper_ids"
    and "truthy paper_ids"
  shows "fetch_papers_from_pubmed w query n s =
           fetch_details w paper_ids (s\<lparr>sent := sent s @ [search_request query n]\<rparr>)"
  using assms by (simp add: fetch_papers_from_pubmed_def)

lemma fetch_papers_parsed:
  assumes "http_get w (search_request query n) = Inr response"
    and "raise_for_status response = None"
    and "json_loads w (content response) = Some search_data"
    and "get_paper_ids search_data = Inr paper_ids"
    and "truthy paper_ids"
    and "join_ids paper_ids = Inr ids"
    and "http_get w (fetch_request ids) = Inr response'"
    and "raise_for_status response' = None"
    and "fromstring w (content response') = Some xml_root"
  shows "fetch_papers_from_pubmed w query n s =
           (s\<lparr>sent := sent s @ [search_request query n, fetch_request ids]\<rparr>,
            articles_loop (findall_descendant ''PubmedArticle'' xml_root) [])"
  by (simp add: fetch_papers_found [OF assms(1-5)] fetch_details_parsed [OF assms(6-9)])

lemma main_error:
  "fetch_papers_from_pubmed w query 5 s = (s', Inl e) \<Longrightarrow> main w query outfile s = (s', Some e)"
  by (simp add: main_def)

lemma main_saves:
  assumes "fetch_papers_from_pubmed w query 5 s = (s', Inr papers)"
    and "papers \<noteq> []" and "f \<noteq> []" and "can_open w f"
  shows "main w query (Some f) s =
     (print (''Results saved to '' @ f)
        (s'\<lparr>files := write_file f (concat (csv_rows papers)) (files s')\<rparr>), None)"
  using assms by (simp add: main_def save_to_csv_def)

subsection \<open>The rows of the CSV file\<close>

lemma header_row:
  "writerow (map Some FIELDNAMES) =
     ''PubmedID,Title,Non-academic Authors,Company Affiliations,Corresponding Author Email''
     @ [CHR 0x0D, CHR 0x0A]"
  by (simp add: writerow_def FIELDNAMES_def csv_field_def needs_quotes_def)

lemma paper_row:
  "writerow (dict_to_list p) =
     csv_field (PubmedID p) @ '','' @ csv_field (Title p) @ '','' @
     csv_field (Some (Non_academic_Authors p)) @ '','' @
     csv_field (Some (Company_Affiliations p)) @ '','' @
     csv_field (Some (Corresponding_Author_Email p)) @ [CHR 0x0D, CHR 0x0A]"
  by (simp add: writerow_def dict_to_list_def)

text \<open>
  What is written for a result set: the header row, then one row of five fields per
  record; and what the fields of a record built from an article are.
\<close>

lemma csv_rows_layout:
  "csv_rows data =
     (''PubmedID,Title,Non-academic Authors,Company Affiliations,Corresponding Author Email''
        @ [CHR 0x0D, CHR 0x0A])
     # map (\<lambda>p. csv_field (PubmedID p) @ '','' @ csv_field (Title p) @ '','' @
                 csv_field (Some (Non_academic_Authors p)) @ '','' @
                 csv_field (Some (Company_Affiliations p)) @ '','' @
                 csv_field (Some (Corresponding_Author_Email p)) @ [CHR 0x0D, CHR 0x0A]) data"
  "length (csv_rows data) = Suc (length data)"
  "can_open w filename \<Longrightarrow>
     files (fst (save_to_csv w data filename s)) =
       write_file filename (concat (csv_rows data)) (files s)"
  "csv_field (Some ''N/A'') = ''N/A''"
proof -
  show "csv_rows data =
     (''PubmedID,Title,Non-academic Authors,Company Affiliations,Corresponding Author Email''
        @ [CHR 0x0D, CHR 0x0A])
     # map (\<lambda>p. csv_field (PubmedID p) @ '','' @ csv_field (Title p) @ '','' @
                 csv_field (Some (Non_academic_Authors p)) @ '','' @
                 csv_field (Some (Company_Affiliations p)) @ '','' @
                 csv_field (Some (Corresponding_Author_Email p)) @ [CHR 0x0D, CHR 0x0A]) data"
    unfolding csv_rows_def header_row paper_row by simp
  show "length (csv_rows data) = Suc (length data)" by (simp add: csv_rows_def)
  show "csv_field (Some ''N/A'') = ''N/A''" by (simp add: csv_field_def needs_quotes_def)
  show "files (fst (save_to_csv w data filename s)) =
          write_file filename (concat (csv_rows data)) (files s)" if "can_open w filename"
    using that by (simp add: save_to_csv_def print_def)
qed

lemma record_fields:
  assumes "article_body article = Inr p"
    and "extract_authors_and_affiliations article = Inr (authors, company_affiliations, email)"
  shows "Non_academic_Authors p = (if authors = [] then ''N/A'' else str_join '', '' authors)"
    and "Company_Affiliations p =
          (if company_affiliations = [] then ''N/A'' else str_join '', '' company_affiliations)"
    and "Corresponding_Author_Email p = (case email of None \<Rightarrow> ''N/A'' | Some m \<Rightarrow> m)"
    and "find_descendant ''ArticleTitle'' article = None \<Longrightarrow> Title p = Some ''N/A''"
proof -
  show "Non_academic_Authors p = (if authors = [] then ''N/A'' else str_join '', '' authors)"
    using article_body_fields(1) [OF assms] by (simp add: join_or_na_def)
  show "Company_Affiliations p =
          (if company_affiliations = [] then ''N/A'' else str_join '', '' company_affiliations)"
    using article_body_fields(2) [OF assms] by (simp add: join_or_na_def)
  show "Corresponding_Author_Email p = (case email of None \<Rightarrow> ''N/A'' | Some m \<Rightarrow> m)"
  proof (cases email)
    case None
    with article_body_fields(3) [OF assms] show ?thesis by (simp add: email_or_na_def)
  next
    case (Some m)
    with assms(2) have "m \<noteq> []" by (auto dest: extracted_email_nonempty)
    with Some article_body_fields(3) [OF assms] show ?thesis by (simp add: email_or_na_def)
  qed
  show "Title p = Some ''N/A''" if "find_descendant ''ArticleTitle'' article = None"
    using article_body_fields(4) [OF assms that] .
qed

subsection \<open>The examples evaluated\<close>

lemma str_items_strings: "str_items (map JStr ids) = Inr ids"
  by (induction ids) simp_all

lemma example_world_http:
  "http_get (example_world a d b r) (search_request q n) =
     Inr \<lparr>status_code = a, content = ''search body''\<rparr>"
  "http_get (example_world a d b r) (fetch_request ids) =
     Inr \<lparr>status_code = b, content = ''fetch body''\<rparr>"
  by (simp_all add: example_world_def search_request_def fetch_request_def)

lemma example_world_decode:
  "json_loads (example_world a d b r) ''search body'' = Some d"
  "fromstring (example_world a d b r) ''fetch body'' = Some r"
  "can_open (example_world a d b r) path"
  by (simp_all add: example_world_def)

lemma id_list_ids:
  "get_paper_ids (id_list ids) = Inr (JArr (map JStr ids))"
  "join_ids (JArr (map JStr ids)) = Inr (str_join '','' ids)"
  by (simp_all add: get_paper_ids_def id_list_def dict_get_def str_items_strings)

lemma example_world_run:
  assumes "truthy (JArr (map JStr ids))"
    and "200 \<le> a \<and> a < 400" and "200 \<le> b \<and> b < 400"
  shows "fetch_papers_from_pubmed (example_world a (id_list ids) b r) q n s =
     (s\<lparr>sent := sent s @ [search_request q n, fetch_request (str_join '','' ids)]\<rparr>,
      articles_loop (findall_descendant ''PubmedArticle'' r) [])"
proof (rule fetch_papers_parsed)
  show "http_get (example_world a (id_list ids) b r) (search_request q n) =
      Inr \<lparr>status_code = a, content = ''search body''\<rparr>"
    by (rule example_world_http)
  show "raise_for_status \<lparr>status_code = a, content = ''search body''\<rparr> = None"
    using assms(2) by (simp add: raise_for_status_def)
  show "json_loads (example_world a (id_list ids) b r)
      (content \<lparr>status_code = a, content = ''search body''\<rparr>) = Some (id_list ids)"
    by (simp add: example_world_decode)
  show "get_paper_ids (id_list ids) = Inr (JArr (map JStr ids))" by (rule id_list_ids)
  show "truthy (JArr (map JStr ids))" by (rule assms(1))
  show "join_ids (JArr (map JStr ids)) = Inr (str_join '','' ids)" by (rule id_list_ids)
  show "http_get (example_world a (id_list ids) b r) (fetch_request (str_join '','' ids)) =
      Inr \<lparr>status_code = b, content = ''fetch body''\<rparr>"
    by (rule example_world_http)
  show "raise_for_status \<lparr>status_code = b, content = ''fetch body''\<rparr> = None"
    using assms(3) by (simp add: raise_for_status_def)
  show "fromstring (example_world a (id_list ids) b r)
      (content \<lparr>status_code = b, content = ''fetch body''\<rparr>) = Some r"
    by (simp add: example_world_decode)
qed

lemma extract_without_address:
  assumes "authors_loop (findall_descendant ''Author'' a) ([], []) = Inr (xs, ys)"
    and "without_at a"
  shows "extract_authors_and_affiliations a = Inr (xs, ys, None)"
proof -
  from assms(2) obtain s where s: "tostring a = Inr s" "CHR ''@'' \<notin> set s"
    by (auto simp: without_at_def split: sum.splits)
  from s(1) assms(1) re_search_no_at [OF s(2)] show ?thesis
    by (simp add: extract_authors_and_affiliations_def)
qed

lemma article_body_of_extract:
  assumes "find_descendant ''PMID'' a = Some pmid"
    and "extract_authors_and_affiliations a = Inr (xs, ys, e)"
  shows "article_body a =
     Inr \<lparr>PubmedID = elem_text pmid,
          Title = (case find_descendant ''ArticleTitle'' a of
                     None \<Rightarrow> Some ''N/A'' | Some title_elem \<Rightarrow> elem_text title_elem),
          Non_academic_Authors = join_or_na xs, Company_Affiliations = join_or_na ys,
          Corresponding_Author_Email = email_or_na e\<rparr>"
  using assms by (simp add: article_body_def)

lemma article_111_extract:
  "extract_authors_and_affiliations article_111 =
     Inr ([''Jane Doe''], [''Acme Pharma Inc.''], None)"
proof (rule extract_without_address)
  show "authors_loop (findall_descendant ''Author'' article_111) ([], []) =
           Inr ([''Jane Doe''], [''Acme Pharma Inc.''])"
    by code_simp
  show "without_at article_111" by code_simp
qed

lemma article_111_body: "article_body article_111 = Inr paper_111"
proof -
  have "find_descendant ''PMID'' article_111 = Some (leaf ''PMID'' (Some ''111''))"
    by code_simp
  from article_body_of_extract [OF this article_111_extract]
  have "article_body article_111 =
     Inr \<lparr>PubmedID = elem_text (leaf ''PMID'' (Some ''111'')),
          Title = (case find_descendant ''ArticleTitle'' article_111 of
                     None \<Rightarrow> Some ''N/A'' | Some title_elem \<Rightarrow> elem_text title_elem),
          Non_academic_Authors = join_or_na [''Jane Doe''],
          Company_Affiliations = join_or_na [''Acme Pharma Inc.''],
          Corresponding_Author_Email = email_or_na None\<rparr>" .
  moreover have "find_descendant ''ArticleTitle'' article_111 =
      Some (leaf ''ArticleTitle'' (Some ''Trial''))"
    by code_simp
  ultimately show ?thesis
    by (simp add: paper_111_def leaf_def join_or_na_def email_or_na_def)
qed

lemma article_333_extract:
  "extract_authors_and_affiliations article_333 =
     Inr ([''Jane Doe'', ''Unknown''], [''Acme Pharma Inc.'', ''Zed Biotech''], None)"
proof (rule extract_without_address)
  show "authors_loop (findall_descendant ''Author'' article_333) ([], []) =
           Inr ([''Jane Doe'', ''Unknown''], [''Acme Pharma Inc.'', ''Zed Biotech''])"
    by code_simp
  show "without_at article_333" by code_simp
qed

lemma article_333_body: "article_body article_333 = Inr paper_333"
proof -
  have "find_descendant ''PMID'' article_333 = Some (leaf ''PMID'' (Some ''333''))"
    by code_simp
  from article_body_of_extract [OF this article_333_extract]
  have "article_body article_333 =
     Inr \<lparr>PubmedID = elem_text (leaf ''PMID'' (Some ''333'')),
          Title = (case find_descendant ''ArticleTitle'' article_333 of
                     None \<Rightarrow> Some ''N/A'' | Some title_elem \<Rightarrow> elem_text title_elem),
          Non_academic_Authors = join_or_na [''Jane Doe'', ''Unknown''],
          Company_Affiliations = join_or_na [''Acme Pharma Inc.'', ''Zed Biotech''],
          Corresponding_Author_Email = email_or_na None\<rparr>" .
  moreover have "find_descendant ''ArticleTitle'' article_333 =
      Some (leaf ''ArticleTitle'' (Some ''Three authors''))"
    by code_simp
  ultimately show ?thesis
    by (simp add: paper_333_def leaf_def join_or_na_def email_or_na_def)
qed

lemma article_444_extract:
  "extract_authors_and_affiliations article_444 = Inr ([], [], Some ''lab@example.org'')"
  by code_simp

lemma article_444_body: "article_body article_444 = Inr paper_444"
proof -
  have "find_descendant ''PMID'' article_444 = Some (leaf ''PMID'' (Some ''444''))"
    by code_simp
  from article_body_of_extract [OF this article_444_extract]
  have "article_body article_444 =
     Inr \<lparr>PubmedID = elem_text (leaf ''PMID'' (Some ''444'')),
          Title = (case find_descendant ''ArticleTitle'' article_444 of
                     None \<Rightarrow> Some ''N/A'' | Some title_elem \<Rightarrow> elem_text title_elem),
          Non_academic_Authors = join_or_na [],
          Company_Affiliations = join_or_na [],
          Corresponding_Author_Email = email_or_na (Some ''lab@example.org'')\<rparr>" .
  moreover have "find_descendant ''ArticleTitle'' article_444 = None"
    by code_simp
  ultimately show ?thesis
    by (simp add: paper_444_def leaf_def join_or_na_def email_or_na_def)
qed

lemma article_556_extract:
  "extract_authors_and_affiliations article_556 = Inr ([], [], None)"
proof (rule extract_without_address)
  show "authors_loop (findall_descendant ''Author'' article_556) ([], []) = Inr ([], [])"
    by code_simp
  show "without_at article_556" by code_simp
qed

lemma article_556_body: "article_body article_556 = Inr paper_556"
proof -
  have "find_descendant ''PMID'' article_556 = Some (leaf ''PMID'' (Some ''556''))"
    by code_simp
  from article_body_of_extract [OF this article_556_extract]
  have "article_body article_556 =
     Inr \<lparr>PubmedID = elem_text (leaf ''PMID'' (Some ''556'')),
          Title = (case find_descendant ''ArticleTitle'' article_556 of
                     None \<Rightarrow> Some ''N/A'' | Some title_elem \<Rightarrow> elem_text title_elem),
          Non_academic_Authors = join_or_na [],
          Company_Affiliations = join_or_na [],
          Corresponding_Author_Email = email_or_na None\<rparr>" .
  moreover have "find_descendant ''ArticleTitle'' article_556 = Some title_556"
    by code_simp
  ultimately show ?thesis
    by (simp add: paper_556_def title_556_def leaf_def join_or_na_def email_or_na_def)
qed

lemma article_777_tostring:
  "tostring article_777 =
     Inr (''<PubmedArticle xmlns:ns0='' @ [CHR 0x22] @ ''urn:first@ns.example'' @ [CHR 0x22]
          @ ''><PMID>777</PMID><ns0:math>body@example.org</ns0:math></PubmedArticle>'')"
  by code_simp

lemma article_777_extract:
  "extract_authors_and_affiliations article_777 = Inr ([], [], Some ''first@ns.example'')"
  by code_simp

lemma article_777_body: "article_body article_777 = Inr paper_777"
proof -
  have "find_descendant ''PMID'' article_777 = Some (leaf ''PMID'' (Some ''777''))"
    by code_simp
  from article_body_of_extract [OF this article_777_extract]
  have "article_body article_777 =
     Inr \<lparr>PubmedID = elem_text (leaf ''PMID'' (Some ''777'')),
          Title = (case find_descendant ''ArticleTitle'' article_777 of
                     None \<Rightarrow> Some ''N/A'' | Some title_elem \<Rightarrow> elem_text title_elem),
          Non_academic_Authors = join_or_na [],
          Company_Affiliations = join_or_na [],
          Corresponding_Author_Email = email_or_na (Some ''first@ns.example'')\<rparr>" .
  moreover have "find_descendant ''ArticleTitle'' article_777 = None"
    by code_simp
  ultimately show ?thesis
    by (simp add: paper_777_def leaf_def join_or_na_def email_or_na_def)
qed

text \<open>
  The serialiser on names in namespaces, attributes, escapes and tails, and the
  writer on fields that need quotes.
\<close>

lemma tostring_examples:
  "tostring (Element ''A'' [] None
       [Element ''B'' [] None [] (Some ''tail''),
        Element ''C'' [(''x'', ''1&2'')] (Some ''t<'') [] None] (Some '' z''))
     = Inr (''<A><B />tail<C x='' @ [CHR 0x22] @ ''1&amp;2'' @ [CHR 0x22]
            @ ''>t&lt;</C></A> z'')"
  "tostring (Element ''r'' [(''{http://www.w3.org/XML/1998/namespace}lang'', ''en'')] None
       [leaf ''{u2}q'' None, leaf ''{http://www.w3.org/1999/xhtml}p'' None,
        leaf ''{u1}q'' (Some ''t'')] None)
     = Inr (''<r xmlns:html='' @ [CHR 0x22] @ ''http://www.w3.org/1999/xhtml'' @ [CHR 0x22]
            @ '' xmlns:ns0='' @ [CHR 0x22] @ ''u2'' @ [CHR 0x22]
            @ '' xmlns:ns2='' @ [CHR 0x22] @ ''u1'' @ [CHR 0x22]
            @ '' xml:lang='' @ [CHR 0x22] @ ''en'' @ [CHR 0x22]
            @ ''><ns0:q /><html:p /><ns2:q>t</ns2:q></r>'')"
  "tostring (leaf ''{urn:open'' None) = Inl ValueError"
  by code_simp+

lemma writerow_examples:
  "writerow [Some ''a,b'', Some (''say '' @ [CHR 0x22] @ ''hi'' @ [CHR 0x22]), None]
     = [CHR 0x22] @ ''a,b'' @ [CHR 0x22] @ '',''
       @ [CHR 0x22] @ ''say '' @ [CHR 0x22, CHR 0x22] @ ''hi'' @ [CHR 0x22, CHR 0x22, CHR 0x22]
       @ '','' @ [CHR 0x0D, CHR 0x0A]"
  "writerow [Some (''one'' @ [CHR 0x0A] @ ''two''), Some (''cr'' @ [CHR 0x0D]), Some ''plain text'']
     = [CHR 0x22] @ ''one'' @ [CHR 0x0A] @ ''two'' @ [CHR 0x22] @ '',''
       @ [CHR 0x22] @ ''cr'' @ [CHR 0x0D] @ [CHR 0x22] @ '',plain text'' @ [CHR 0x0D, CHR 0x0A]"
  by code_simp+

section \<open>The claims\<close>

text \<open>
  C1. An author whose affiliation text is the string \<open>affiliation\<close> is classified
  ``company'', that is, appended with that text to the two output lists, if and only
  if the text contains one of the seven keywords as a substring, compared character
  by character; an author whose text contains none of them leaves both lists as they
  were.
\<close>

theorem company_iff_keyword_substring:
  assumes "find_descendant ''Affiliation'' author = Some affiliation_elem"
    and "elem_text affiliation_elem = Some affiliation"
  shows "author_body author (authors, company_affiliations) =
     Inr (if \<exists>keyword \<in> {''Inc.'', ''Ltd.'', ''Pharma'', ''Biotech'', ''Corp.'',
                             ''Therapeutics'', ''Laboratories''}.
               \<exists>pre post. affiliation = pre @ keyword @ post
          then (authors @ [author_name author], company_affiliations @ [affiliation])
          else (authors, company_affiliations))"
proof -
  have "any_company_keyword affiliation \<longleftrightarrow>
        (\<exists>keyword \<in> {''Inc.'', ''Ltd.'', ''Pharma'', ''Biotech'', ''Corp.'',
                             ''Therapeutics'', ''Laboratories''}.
               \<exists>pre post. affiliation = pre @ keyword @ post)"
    unfolding any_company_keyword_iff by (simp add: COMPANY_KEYWORDS_def)
  with assms show ?thesis by simp
qed

text \<open>
  On the examples: ``Acme Pharma Inc.'' holds a keyword and its author is listed;
  ``acme pharma inc'' holds none, the comparison being case-sensitive, and its author
  is left out.
\<close>

theorem company_iff_keyword_substring_witness:
  "(\<exists>keyword \<in> {''Inc.'', ''Ltd.'', ''Pharma'', ''Biotech'', ''Corp.'',
                    ''Therapeutics'', ''Laboratories''}.
       \<exists>pre post. ''Acme Pharma Inc.'' = pre @ keyword @ post)
   \<and> author_body jane_doe ([], []) = Inr ([''Jane Doe''], [''Acme Pharma Inc.''])
   \<and> \<not> (\<exists>keyword \<in> {''Inc.'', ''Ltd.'', ''Pharma'', ''Biotech'', ''Corp.'',
                    ''Therapeutics'', ''Laboratories''}.
       \<exists>pre post. ''acme pharma inc'' = pre @ keyword @ post)
   \<and> author_body lee_low ([''Jane Doe''], [''Acme Pharma Inc.''])
        = Inr ([''Jane Doe''], [''Acme Pharma Inc.''])"
proof -
  have j: "find_descendant ''Affiliation'' jane_doe =
             Some (leaf ''Affiliation'' (Some ''Acme Pharma Inc.''))"
    "elem_text (leaf ''Affiliation'' (Some ''Acme Pharma Inc.'')) = Some ''Acme Pharma Inc.''"
    by code_simp+
  have l: "find_descendant ''Affiliation'' lee_low =
             Some (leaf ''Affiliation'' (Some ''acme pharma inc''))"
    "elem_text (leaf ''Affiliation'' (Some ''acme pharma inc'')) = Some ''acme pharma inc''"
    by code_simp+
  have vj: "author_body jane_doe ([], []) = Inr ([''Jane Doe''], [''Acme Pharma Inc.''])"
    by code_simp
  have vl: "author_body lee_low ([''Jane Doe''], [''Acme Pharma Inc.''])
        = Inr ([''Jane Doe''], [''Acme Pharma Inc.''])"
    by code_simp
  from company_iff_keyword_substring [OF j, of "[]" "[]"] vj
  have 1: "\<exists>keyword \<in> {''Inc.'', ''Ltd.'', ''Pharma'', ''Biotech'', ''Corp.'',
                    ''Therapeutics'', ''Laboratories''}.
       \<exists>pre post. ''Acme Pharma Inc.'' = pre @ keyword @ post"
    by (simp split: if_splits)
  from company_iff_keyword_substring [OF l, of "[''Jane Doe'']" "[''Acme Pharma Inc.'']"] vl
  have 2: "\<not> (\<exists>keyword \<in> {''Inc.'', ''Ltd.'', ''Pharma'', ''Biotech'', ''Corp.'',
                    ''Therapeutics'', ''Laboratories''}.
       \<exists>pre post. ''acme pharma inc'' = pre @ keyword @ post)"
    by (simp split: if_splits)
  from 1 vj 2 vl show ?thesis by blast
qed

text \<open>
  C2. An author node whose \<open>Affiliation\<close> element is present but has no text is not
  skipped: the keyword test raises \<open>TypeError\<close>, which ends the extraction of the
  article and, uncaught, the whole run. (An author node with no \<open>Affiliation\<close>
  element, or with the empty string as its text, is skipped without error; see
  \<open>author_without_affiliation_skipped\<close> and \<open>author_with_empty_affiliation_skipped\<close>.)
\<close>

theorem blank_affiliation_raises:
  "find_descendant ''Affiliation'' blank_affiliation = Some (leaf ''Affiliation'' None)
   \<and> author_body blank_affiliation ([''Jane Doe''], [''Acme Pharma Inc.'']) = Inl TypeError
   \<and> extract_authors_and_affiliations article_555 = Inl TypeError
   \<and> main (example_world 200 (id_list [''555'']) 200 (article_set [article_555]))
        ''cancer research'' None initial =
       (\<lparr>sent = [search_request ''cancer research'' 5, fetch_request ''555''],
         stdout = [], files = []\<rparr>, Some TypeError)"
proof -
  let ?r = "article_set [article_555]"
  have a: "find_descendant ''Affiliation'' blank_affiliation = Some (leaf ''Affiliation'' None)"
    and b: "author_body blank_affiliation ([''Jane Doe''], [''Acme Pharma Inc.'']) = Inl TypeError"
    and c: "extract_authors_and_affiliations article_555 = Inl TypeError"
    by code_simp+
  have "find_descendant ''PMID'' article_555 = Some (leaf ''PMID'' (Some ''555''))"
    by code_simp
  with c have "article_body article_555 = Inl TypeError" by (simp add: article_body_def)
  moreover have "findall_descendant ''PubmedArticle'' ?r = [article_555]" by code_simp
  ultimately have "fetch_papers_from_pubmed (example_world 200 (id_list [''555'']) 200 ?r)
      ''cancer research'' 5 initial =
     (initial\<lparr>sent := sent initial @ [search_request ''cancer research'' 5, fetch_request ''555'']\<rparr>,
      Inl TypeError)"
    using example_world_run [of "[''555'']" 200 200 ?r "''cancer research''" 5 initial]
    by simp
  then have "main (example_world 200 (id_list [''555'']) 200 ?r) ''cancer research'' None initial =
     (initial\<lparr>sent := sent initial @ [search_request ''cancer research'' 5, fetch_request ''555'']\<rparr>,
      Some TypeError)"
    by (rule main_error)
  with a b c show ?thesis by (simp add: initial_def)
qed

text \<open>
  C3. When the search request succeeds and the identifier list taken from its answer
  is empty, \<open>fetch_papers_from_pubmed\<close> returns the empty list after that one
  request (the fetch request is never sent), and \<open>main\<close> ends without an error,
  having printed its two messages and left every file as it was.
\<close>

theorem empty_id_list_short_circuits:
  assumes "http_get w (search_request query 5) = Inr response"
    and "raise_for_status response = None"
    and "json_loads w (content response) = Some search_data"
    and "get_paper_ids search_data = Inr (JArr [])"
  shows "fetch_papers_from_pubmed w query 5 s =
           (print ''No papers found for the query.''
              (s\<lparr>sent := sent s @ [search_request query 5]\<rparr>), Inr [])
       \<and> main w query outfile s =
           (print ''No results found.'' (print ''No papers found for the query.''
              (s\<lparr>sent := sent s @ [search_request query 5]\<rparr>)), None)
       \<and> sent (fst (main w query outfile s)) = sent s @ [search_request query 5]
       \<and> files (fst (main w query outfile s)) = files s"
proof -
  have f: "fetch_papers_from_pubmed w query 5 s =
           (print ''No papers found for the query.''
              (s\<lparr>sent := sent s @ [search_request query 5]\<rparr>), Inr [])"
    using assms by (simp add: fetch_papers_from_pubmed_def)
  then have m: "main w query outfile s =
           (print ''No results found.'' (print ''No papers found for the query.''
              (s\<lparr>sent := sent s @ [search_request query 5]\<rparr>)), None)"
    by (simp add: main_def)
  from f m show ?thesis by (simp add: print_def)
qed

theorem empty_id_list_short_circuits_witness:
  "http_get (example_world 200 (id_list []) 200 (article_set [article_111]))
       (search_request ''cancer research'' 5) = Inr \<lparr>status_code = 200, content = ''search body''\<rparr>
   \<and> get_paper_ids (id_list []) = Inr (JArr [])
   \<and> main (example_world 200 (id_list []) 200 (article_set [article_111]))
        ''cancer research'' (Some ''out.csv'') initial =
       (\<lparr>sent = [search_request ''cancer research'' 5],
         stdout = [''No papers found for the query.'', ''No results found.''],
         files = []\<rparr>, None)"
proof -
  let ?w = "example_world 200 (id_list []) 200 (article_set [article_111])"
  have h1: "http_get ?w (search_request ''cancer research'' 5) =
      Inr \<lparr>status_code = 200, content = ''search body''\<rparr>"
    by (rule example_world_http)
  have h2: "raise_for_status \<lparr>status_code = 200, content = ''search body''\<rparr> = None"
    by (simp add: raise_for_status_def)
  have h3: "json_loads ?w (content \<lparr>status_code = 200, content = ''search body''\<rparr>) =
      Some (id_list [])"
    by (simp add: example_world_decode)
  have h4: "get_paper_ids (id_list []) = Inr (JArr [])"
    using id_list_ids(1) [of "[]"] by simp
  from empty_id_list_short_circuits [where outfile = "Some ''out.csv''" and s = initial,
      OF h1 h2 h3 h4] h1 h4
  show ?thesis by (simp add: print_def initial_def)
qed

text \<open>
  C4, as the code has it. \<open>raise_for_status\<close> raises for a status from 400 to 599
  only, so a status outside both that range and 200 to 299 does not abort the run:
  with status 300 on the search request and a well-formed answer, both requests are
  sent and the file is written.
\<close>

theorem redirect_status_does_not_abort:
  "http_get (example_world 300 (id_list [''111'']) 200 (article_set [article_111]))
       (search_request ''cancer research'' 5) = Inr \<lparr>status_code = 300, content = ''search body''\<rparr>
   \<and> main (example_world 300 (id_list [''111'']) 200 (article_set [article_111]))
        ''cancer research'' (Some ''out.csv'') initial =
       (\<lparr>sent = [search_request ''cancer research'' 5, fetch_request ''111''],
         stdout = [''Results saved to out.csv''],
         files = [(''out.csv'', concat (csv_rows [paper_111]))]\<rparr>, None)"
proof -
  let ?w = "example_world 300 (id_list [''111'']) 200 (article_set [article_111])"
  have "findall_descendant ''PubmedArticle'' (article_set [article_111]) = [article_111]"
    by code_simp
  then have "articles_loop (findall_descendant ''PubmedArticle'' (article_set [article_111])) []
      = Inr [paper_111]"
    by (simp add: article_111_body)
  with example_world_run [of "[''111'']" 300 200 "article_set [article_111]"
      "''cancer research''" 5 initial]
  have "fetch_papers_from_pubmed ?w ''cancer research'' 5 initial =
     (initial\<lparr>sent := sent initial @ [search_request ''cancer research'' 5, fetch_request ''111'']\<rparr>,
      Inr [paper_111])"
    by simp
  from main_saves [OF this, of "''out.csv''"]
  have "main ?w ''cancer research'' (Some ''out.csv'') initial =
       (\<lparr>sent = [search_request ''cancer research'' 5, fetch_request ''111''],
         stdout = [''Results saved to out.csv''],
         files = [(''out.csv'', concat (csv_rows [paper_111]))]\<rparr>, None)"
    by (simp add: example_world_decode initial_def print_def write_file_def)
  then show ?thesis by (simp add: example_world_http)
qed

text \<open>
  C4, amended. When the search request is answered with a status from 400 to 599,
  \<open>main\<close> dies of \<open>HTTPError\<close> after that single request: the fetch request is not
  sent, nothing is printed and no file is written. When the search succeeds with a
  non-empty identifier list and the fetch request is answered with a status from 400
  to 599, \<open>main\<close> dies of \<open>HTTPError\<close> after exactly these two requests, again with
  nothing printed and no file written.
\<close>

theorem http_error_status_aborts:
  "(http_get w (search_request query 5) = Inr response \<and>
    400 \<le> status_code response \<and> status_code response < 600
      \<longrightarrow> main w query outfile s =
            (s\<lparr>sent := sent s @ [search_request query 5]\<rparr>, Some HTTPError))
   \<and> (http_get w (search_request query 5) = Inr response \<and>
      raise_for_status response = None \<and>
      json_loads w (content response) = Some search_data \<and>
      get_paper_ids search_data = Inr paper_ids \<and> truthy paper_ids \<and>
      join_ids paper_ids = Inr ids \<and>
      http_get w (fetch_request ids) = Inr response' \<and>
      400 \<le> status_code response' \<and> status_code response' < 600
      \<longrightarrow> main w query outfile s =
            (s\<lparr>sent := sent s @ [search_request query 5, fetch_request ids]\<rparr>,
             Some HTTPError))"
proof (intro conjI impI)
  assume "http_get w (search_request query 5) = Inr response \<and>
    400 \<le> status_code response \<and> status_code response < 600"
  then have "fetch_papers_from_pubmed w query 5 s =
      (s\<lparr>sent := sent s @ [search_request query 5]\<rparr>, Inl HTTPError)"
    by (simp add: fetch_papers_from_pubmed_def raise_for_status_def)
  then show "main w query outfile s =
      (s\<lparr>sent := sent s @ [search_request query 5]\<rparr>, Some HTTPError)"
    by (rule main_error)
next
  assume a: "http_get w (search_request query 5) = Inr response \<and>
      raise_for_status response = None \<and>
      json_loads w (content response) = Some search_data \<and>
      get_paper_ids search_data = Inr paper_ids \<and> truthy paper_ids \<and>
      join_ids paper_ids = Inr ids \<and>
      http_get w (fetch_request ids) = Inr response' \<and>
      400 \<le> status_code response' \<and> status_code response' < 600"
  then have "fetch_papers_from_pubmed w query 5 s =
      fetch_details w paper_ids (s\<lparr>sent := sent s @ [search_request query 5]\<rparr>)"
    by (simp add: fetch_papers_found)
  also from a have "\<dots> =
      (s\<lparr>sent := sent s @ [search_request query 5, fetch_request ids]\<rparr>, Inl HTTPError)"
    by (simp add: fetch_details_def raise_for_status_def)
  finally show "main w query outfile s =
      (s\<lparr>sent := sent s @ [search_request query 5, fetch_request ids]\<rparr>, Some HTTPError)"
    by (rule main_error)
qed

theorem http_error_status_aborts_witness:
  "main (example_world 500 (id_list [''111'']) 200 (article_set [article_111]))
        ''cancer research'' (Some ''out.csv'') initial =
     (\<lparr>sent = [search_request ''cancer research'' 5], stdout = [], files = []\<rparr>, Some HTTPError)
   \<and> main (example_world 200 (id_list [''111'']) 404 (article_set [article_111]))
        ''cancer research'' (Some ''out.csv'') initial =
     (\<lparr>sent = [search_request ''cancer research'' 5, fetch_request ''111''],
       stdout = [], files = []\<rparr>, Some HTTPError)"
proof -
  let ?w1 = "example_world 500 (id_list [''111'']) 200 (article_set [article_111])"
  let ?w2 = "example_world 200 (id_list [''111'']) 404 (article_set [article_111])"
  let ?r = "\<lambda>st. \<lparr>status_code = st, content = ''search body''\<rparr>"
  have a: "http_get ?w1 (search_request ''cancer research'' 5) = Inr (?r 500) \<and>
      400 \<le> status_code (?r 500) \<and> status_code (?r 500) < 600"
    by (simp add: example_world_http)
  have b: "http_get ?w2 (search_request ''cancer research'' 5) = Inr (?r 200) \<and>
      raise_for_status (?r 200) = None \<and>
      json_loads ?w2 (content (?r 200)) = Some (id_list [''111'']) \<and>
      get_paper_ids (id_list [''111'']) = Inr (JArr [JStr ''111'']) \<and>
      truthy (JArr [JStr ''111'']) \<and>
      join_ids (JArr [JStr ''111'']) = Inr ''111'' \<and>
      http_get ?w2 (fetch_request ''111'') = Inr \<lparr>status_code = 404, content = ''fetch body''\<rparr> \<and>
      400 \<le> status_code \<lparr>status_code = 404, content = ''fetch body''\<rparr> \<and>
      status_code \<lparr>status_code = 404, content = ''fetch body''\<rparr> < 600"
    using id_list_ids [of "[''111'']"]
    by (simp add: example_world_http example_world_decode raise_for_status_def)
  from http_error_status_aborts [where w = ?w1 and query = "''cancer research''"
      and response = "?r 500" and outfile = "Some ''out.csv''" and s = initial] a
  have 1: "main ?w1 ''cancer research'' (Some ''out.csv'') initial =
     (\<lparr>sent = [search_request ''cancer research'' 5], stdout = [], files = []\<rparr>, Some HTTPError)"
    by (simp add: initial_def)
  from http_error_status_aborts [where w = ?w2 and query = "''cancer research''"
      and response = "?r 200" and outfile = "Some ''out.csv''" and s = initial
      and search_data = "id_list [''111'']" and paper_ids = "JArr [JStr ''111'']"
      and ids = "''111''" and response' = "\<lparr>status_code = 404, content = ''fetch body''\<rparr>"] b
  have 2: "main ?w2 ''cancer research'' (Some ''out.csv'') initial =
     (\<lparr>sent = [search_request ''cancer research'' 5, fetch_request ''111''],
       stdout = [], files = []\<rparr>, Some HTTPError)"
    by (simp add: initial_def)
  from 1 2 show ?thesis ..
qed

text \<open>
  C5. The address returned for an article is the first match of the pattern in the
  serialised article: the word of the pattern that occurs in the text with no word of
  the pattern starting further left and none starting at the same place being
  longer, wherever in the serialised text that is (an author node, any other
  element, an attribute or a namespace declaration); it is the value of the
  record's email field. When no word of the pattern occurs anywhere in the text, the
  field is \<open>N/A\<close>.
\<close>

theorem email_is_first_match:
  assumes "extract_authors_and_affiliations article =
             Inr (authors, company_affiliations, corresponding_email)"
    and "article_body article = Inr p"
  shows "\<exists>serialized. tostring article = Inr serialized \<and>
          (case corresponding_email of
             Some m \<Rightarrow> first_match EMAIL_PATTERN serialized m \<and>
                       Corresponding_Author_Email p = m
           | None \<Rightarrow> no_match EMAIL_PATTERN serialized \<and>
                     Corresponding_Author_Email p = ''N/A'')"
proof -
  from assms(1) obtain serialized where t: "tostring article = Inr serialized"
    and s: "re_search EMAIL_PATTERN serialized = corresponding_email"
    by (auto simp: extract_authors_and_affiliations_def split: sum.splits)
  have f: "Corresponding_Author_Email p = email_or_na corresponding_email"
    using article_body_fields(3) [OF assms(2,1)] .
  have "case corresponding_email of
             Some m \<Rightarrow> first_match EMAIL_PATTERN serialized m \<and>
                       Corresponding_Author_Email p = m
           | None \<Rightarrow> no_match EMAIL_PATTERN serialized \<and>
                     Corresponding_Author_Email p = ''N/A''"
  proof (cases corresponding_email)
    case None
    with s have "no_match EMAIL_PATTERN serialized" by (simp add: re_search_None)
    with None f show ?thesis by (simp add: email_or_na_def)
  next
    case (Some m)
    with s have fm: "first_match EMAIL_PATTERN serialized m"
      by (simp add: email_search_first_match)
    from Some assms(1) have "m \<noteq> []" by (auto dest: extracted_email_nonempty)
    with Some f fm show ?thesis by (simp add: email_or_na_def)
  qed
  with t show ?thesis by blast
qed

text \<open>
  On the examples: the address in the abstract of an article without any author node
  is the one returned; for the article with a namespace whose name holds an address,
  the declaration written on the start tag comes first in the serialised text and
  its address is the one returned, not the one in the body; an article without an
  address gets \<open>N/A\<close>.
\<close>

theorem email_is_first_match_witness:
  "extract_authors_and_affiliations article_444 = Inr ([], [], Some ''lab@example.org'')
   \<and> article_body article_444 = Inr paper_444
   \<and> findall_descendant ''Author'' article_444 = []
   \<and> tostring article_444 =
       Inr ''<PubmedArticle><PMID>444</PMID><AbstractText>Ask lab@example.org now</AbstractText></PubmedArticle>''
   \<and> first_match EMAIL_PATTERN
         ''<PubmedArticle><PMID>444</PMID><AbstractText>Ask lab@example.org now</AbstractText></PubmedArticle>''
         ''lab@example.org''
   \<and> Corresponding_Author_Email paper_444 = ''lab@example.org''
   \<and> extract_authors_and_affiliations article_777 = Inr ([], [], Some ''first@ns.example'')
   \<and> article_body article_777 = Inr paper_777
   \<and> tostring article_777 =
       Inr (''<PubmedArticle xmlns:ns0='' @ [CHR 0x22] @ ''urn:first@ns.example'' @ [CHR 0x22]
            @ ''><PMID>777</PMID><ns0:math>body@example.org</ns0:math></PubmedArticle>'')
   \<and> first_match EMAIL_PATTERN
         (''<PubmedArticle xmlns:ns0='' @ [CHR 0x22] @ ''urn:first@ns.example'' @ [CHR 0x22]
            @ ''><PMID>777</PMID><ns0:math>body@example.org</ns0:math></PubmedArticle>'')
         ''first@ns.example''
   \<and> Corresponding_Author_Email paper_777 = ''first@ns.example''
   \<and> extract_authors_and_affiliations article_111 =
       Inr ([''Jane Doe''], [''Acme Pharma Inc.''], None)
   \<and> article_body article_111 = Inr paper_111
   \<and> without_at article_111
   \<and> Corresponding_Author_Email paper_111 = ''N/A''"
proof -
  have n: "findall_descendant ''Author'' article_444 = []" by code_simp
  have t4: "tostring article_444 =
       Inr ''<PubmedArticle><PMID>444</PMID><AbstractText>Ask lab@example.org now</AbstractText></PubmedArticle>''"
    by code_simp
  have w: "without_at article_111" by code_simp
  from email_is_first_match [OF article_444_extract article_444_body] t4
  have 1: "first_match EMAIL_PATTERN
         ''<PubmedArticle><PMID>444</PMID><AbstractText>Ask lab@example.org now</AbstractText></PubmedArticle>''
         ''lab@example.org'' \<and>
      Corresponding_Author_Email paper_444 = ''lab@example.org''"
    by simp
  from email_is_first_match [OF article_777_extract article_777_body] article_777_tostring
  have 2: "first_match EMAIL_PATTERN
         (''<PubmedArticle xmlns:ns0='' @ [CHR 0x22] @ ''urn:first@ns.example'' @ [CHR 0x22]
            @ ''><PMID>777</PMID><ns0:math>body@example.org</ns0:math></PubmedArticle>'')
         ''first@ns.example'' \<and>
      Corresponding_Author_Email paper_777 = ''first@ns.example''"
    by simp
  from email_is_first_match [OF article_111_extract article_111_body]
  have 3: "Corresponding_Author_Email paper_111 = ''N/A''"
    by auto
  from article_444_extract article_444_body n t4 1 article_777_extract article_777_body
    article_777_tostring 2 article_111_extract article_111_body w 3
  show ?thesis by blast
qed

text \<open>
  C6. An author node none of whose children is a \<open>ForeName\<close> element, or none of
  whose children is a \<open>LastName\<close> element, has the display name \<open>Unknown\<close>; one
  that has both, each with a text, has the given name, a space and the family name.
\<close>

theorem missing_name_part_is_unknown:
  "(''ForeName'' \<notin> tag ` set (children author) \<or> ''LastName'' \<notin> tag ` set (children author)
      \<longrightarrow> author_name author = ''Unknown'')
   \<and> (find_child ''ForeName'' author = Some f \<and> elem_text f = Some given
      \<and> find_child ''LastName'' author = Some l \<and> elem_text l = Some family
      \<longrightarrow> author_name author = given @ '' '' @ family)"
proof (intro conjI impI)
  assume "''ForeName'' \<notin> tag ` set (children author) \<or>
          ''LastName'' \<notin> tag ` set (children author)"
  then have "find_child ''ForeName'' author = None \<or> find_child ''LastName'' author = None"
    unfolding find_child_def find_None_iff image_iff by metis
  then show "author_name author = ''Unknown''"
  proof
    assume "find_child ''ForeName'' author = None"
    then show ?thesis by (simp add: author_name_def split: option.splits)
  next
    assume "find_child ''LastName'' author = None"
    then show ?thesis by (simp add: author_name_def)
  qed
next
  assume "find_child ''ForeName'' author = Some f \<and> elem_text f = Some given
      \<and> find_child ''LastName'' author = Some l \<and> elem_text l = Some family"
  then show "author_name author = given @ '' '' @ family"
    by (simp add: author_name_def format_text_def)
qed

theorem missing_name_part_is_unknown_witness:
  "map tag (children poe) = [''LastName'', ''AffiliationInfo'']
   \<and> author_name poe = ''Unknown''
   \<and> find_child ''ForeName'' jane_doe = Some (leaf ''ForeName'' (Some ''Jane''))
   \<and> find_child ''LastName'' jane_doe = Some (leaf ''LastName'' (Some ''Doe''))
   \<and> author_name jane_doe = ''Jane'' @ '' '' @ ''Doe''"
proof -
  have p: "map tag (children poe) = [''LastName'', ''AffiliationInfo'']" by code_simp
  then have "set (map tag (children poe)) = {''LastName'', ''AffiliationInfo''}" by simp
  then have q: "''ForeName'' \<notin> tag ` set (children poe)" by simp
  have f: "find_child ''ForeName'' jane_doe = Some (leaf ''ForeName'' (Some ''Jane''))"
    and l: "find_child ''LastName'' jane_doe = Some (leaf ''LastName'' (Some ''Doe''))"
    by code_simp+
  have t: "elem_text (leaf ''ForeName'' (Some ''Jane'')) = Some ''Jane''"
    "elem_text (leaf ''LastName'' (Some ''Doe'')) = Some ''Doe''"
    by (simp_all add: leaf_def)
  from missing_name_part_is_unknown [of poe] q have 1: "author_name poe = ''Unknown''"
    by blast
  from missing_name_part_is_unknown [of jane_doe "leaf ''ForeName'' (Some ''Jane'')" "''Jane''"
      "leaf ''LastName'' (Some ''Doe'')" "''Doe''"] f l t
  have 2: "author_name jane_doe = ''Jane'' @ '' '' @ ''Doe''" by blast
  from p 1 f l 2 show ?thesis by blast
qed

text \<open>
  C7. The two lists returned for an article are parallel: they have the same length,
  which is the number of author nodes the classifier accepts, and at every index the
  name is the display name of the i-th accepted author node in document order and
  the affiliation is the affiliation text of that same node.
\<close>

theorem author_and_affiliation_lists_parallel:
  assumes "extract_authors_and_affiliations article = Inr (authors, company_affiliations, email)"
  shows "length authors = length company_affiliations \<and>
    (\<exists>matched. matched = filter company_author (findall_descendant ''Author'' article) \<and>
       length matched = length authors \<and>
       (\<forall>i < length authors.
           authors ! i = author_name (matched ! i) \<and>
           affiliation_text (matched ! i) = Some (company_affiliations ! i)))"
proof -
  let ?ms = "filter company_author (findall_descendant ''Author'' article)"
  from assms have "authors_loop (findall_descendant ''Author'' article) ([], []) =
      Inr (authors, company_affiliations)"
    by (auto simp: extract_authors_and_affiliations_def split: sum.splits)
  from authors_loop_parallel [OF this]
  have a: "authors = map author_name ?ms"
    and c: "map Some company_affiliations = map affiliation_text ?ms"
    by simp_all
  from a have la: "length authors = length ?ms" by simp
  from c have "length (map Some company_affiliations) = length (map affiliation_text ?ms)"
    by simp
  then have lc: "length company_affiliations = length ?ms" by simp
  have "authors ! i = author_name (?ms ! i) \<and>
        affiliation_text (?ms ! i) = Some (company_affiliations ! i)"
    if "i < length authors" for i
  proof -
    from that la have i: "i < length ?ms" by simp
    from a i have "authors ! i = author_name (?ms ! i)" by simp
    moreover have "map Some company_affiliations ! i = map affiliation_text ?ms ! i"
      using c by simp
    with i lc have "Some (company_affiliations ! i) = affiliation_text (?ms ! i)" by simp
    ultimately show ?thesis by simp
  qed
  with la lc show ?thesis by simp
qed

theorem author_and_affiliation_lists_parallel_witness:
  "extract_authors_and_affiliations article_333 =
     Inr ([''Jane Doe'', ''Unknown''], [''Acme Pharma Inc.'', ''Zed Biotech''], None)
   \<and> filter company_author (findall_descendant ''Author'' article_333) = [jane_doe, poe]
   \<and> length [''Jane Doe'', ''Unknown''] = length [''Acme Pharma Inc.'', ''Zed Biotech'']
   \<and> ''Jane Doe'' = author_name jane_doe
   \<and> affiliation_text jane_doe = Some ''Acme Pharma Inc.''
   \<and> ''Unknown'' = author_name poe
   \<and> affiliation_text poe = Some ''Zed Biotech''"
proof -
  have m: "filter company_author (findall_descendant ''Author'' article_333) = [jane_doe, poe]"
    by code_simp
  from author_and_affiliation_lists_parallel [OF article_333_extract] m
  have "\<forall>i < 2. [''Jane Doe'', ''Unknown''] ! i = author_name ([jane_doe, poe] ! i) \<and>
          affiliation_text ([jane_doe, poe] ! i) = Some ([''Acme Pharma Inc.'', ''Zed Biotech''] ! i)"
    by simp
  from this [rule_format, of 0] this [rule_format, of 1]
  have "''Jane Doe'' = author_name jane_doe \<and> affiliation_text jane_doe = Some ''Acme Pharma Inc.''
      \<and> ''Unknown'' = author_name poe \<and> affiliation_text poe = Some ''Zed Biotech''"
    by simp
  with article_333_extract m show ?thesis by simp
qed

text \<open>
  C8. The header row, the one row of five fields per record and the joining of the
  lists are as claimed (\<open>csv_rows_layout\<close>), and an empty author list, an empty
  affiliation list, a missing address and a missing \<open>ArticleTitle\<close> element are
  written as \<open>N/A\<close> (\<open>record_fields\<close>). A title element without text of its own is not: for the
  article whose title begins with markup the title of the record is \<open>None\<close>, and
  the row written to the file has an empty second field.
\<close>

theorem blank_title_written_empty:
  "find_descendant ''ArticleTitle'' article_556 = Some title_556
   \<and> elem_text title_556 = None
   \<and> article_body article_556 = Inr paper_556
   \<and> Title paper_556 = None
   \<and> main (example_world 200 (id_list [''556'']) 200 (article_set [article_556]))
        ''cancer research'' (Some ''out.csv'') initial =
       (\<lparr>sent = [search_request ''cancer research'' 5, fetch_request ''556''],
         stdout = [''Results saved to out.csv''],
         files = [(''out.csv'',
           ''PubmedID,Title,Non-academic Authors,Company Affiliations,Corresponding Author Email''
           @ [CHR 0x0D, CHR 0x0A] @ ''556,,N/A,N/A,N/A'' @ [CHR 0x0D, CHR 0x0A])]\<rparr>, None)"
proof -
  let ?w = "example_world 200 (id_list [''556'']) 200 (article_set [article_556])"
  have t: "find_descendant ''ArticleTitle'' article_556 = Some title_556"
    and x: "elem_text title_556 = None"
    by code_simp+
  have "findall_descendant ''PubmedArticle'' (article_set [article_556]) = [article_556]"
    by code_simp
  then have "articles_loop (findall_descendant ''PubmedArticle'' (article_set [article_556])) []
      = Inr [paper_556]"
    by (simp add: article_556_body)
  with example_world_run [of "[''556'']" 200 200 "article_set [article_556]"
      "''cancer research''" 5 initial]
  have "fetch_papers_from_pubmed ?w ''cancer research'' 5 initial =
     (initial\<lparr>sent := sent initial @ [search_request ''cancer research'' 5, fetch_request ''556'']\<rparr>,
      Inr [paper_556])"
    by simp
  from main_saves [OF this, of "''out.csv''"]
  have "main ?w ''cancer research'' (Some ''out.csv'') initial =
       (\<lparr>sent = [search_request ''cancer research'' 5, fetch_request ''556''],
         stdout = [''Results saved to out.csv''],
         files = [(''out.csv'', concat (csv_rows [paper_556]))]\<rparr>, None)"
    by (simp add: example_world_decode initial_def print_def write_file_def)
  moreover have "concat (csv_rows [paper_556]) =
           ''PubmedID,Title,Non-academic Authors,Company Affiliations,Corresponding Author Email''
           @ [CHR 0x0D, CHR 0x0A] @ ''556,,N/A,N/A,N/A'' @ [CHR 0x0D, CHR 0x0A]"
    by code_simp
  moreover have "Title paper_556 = None" by (simp add: paper_556_def)
  ultimately show ?thesis using t x article_556_body by simp
qed

text \<open>
  C9. When both requests succeed and the parsed document holds an article record
  without a \<open>PMID\<close> element, the loop body raises \<open>AttributeError\<close> on that
  record, \<open>fetch_papers_from_pubmed\<close> returns no list at all but an error, and
  \<open>main\<close> dies of that error with nothing printed and no file written.
\<close>

theorem missing_pmid_aborts_batch:
  assumes "http_get w (search_request query 5) = Inr response"
    and "raise_for_status response = None"
    and "json_loads w (content response) = Some search_data"
    and "get_paper_ids search_data = Inr paper_ids"
    and "truthy paper_ids"
    and "join_ids paper_ids = Inr ids"
    and "http_get w (fetch_request ids) = Inr response'"
    and "raise_for_status response' = None"
    and "fromstring w (content response') = Some xml_root"
    and "article \<in> set (findall_descendant ''PubmedArticle'' xml_root)"
    and "find_descendant ''PMID'' article = None"
  shows "article_body article = Inl AttributeError \<and>
    (\<exists>e. fetch_papers_from_pubmed w query 5 s =
            (s\<lparr>sent := sent s @ [search_request query 5, fetch_request ids]\<rparr>, Inl e) \<and>
          main w query outfile s =
            (s\<lparr>sent := sent s @ [search_request query 5, fetch_request ids]\<rparr>, Some e))"
proof -
  have b: "article_body article = Inl AttributeError"
    using assms(11) by (rule article_body_no_pmid)
  from articles_loop_error [OF assms(10) b]
  obtain e where "articles_loop (findall_descendant ''PubmedArticle'' xml_root) [] = Inl e" ..
  with fetch_papers_parsed [OF assms(1-9), of s]
  have f: "fetch_papers_from_pubmed w query 5 s =
            (s\<lparr>sent := sent s @ [search_request query 5, fetch_request ids]\<rparr>, Inl e)"
    by simp
  from f main_error [OF f] b show ?thesis by blast
qed

text \<open>
  On the examples: a batch of a well-formed record followed by one without
  identifier yields no record at all, and no file.
\<close>

theorem missing_pmid_aborts_batch_witness:
  "article_no_pmid \<in>
     set (findall_descendant ''PubmedArticle'' (article_set [article_111, article_no_pmid]))
   \<and> find_descendant ''PMID'' article_no_pmid = None
   \<and> main (example_world 200 (id_list [''111'', ''222'']) 200
             (article_set [article_111, article_no_pmid]))
        ''cancer research'' (Some ''out.csv'') initial =
       (\<lparr>sent = [search_request ''cancer research'' 5, fetch_request ''111,222''],
         stdout = [], files = []\<rparr>, Some AttributeError)"
proof -
  let ?r = "article_set [article_111, article_no_pmid]"
  let ?w = "example_world 200 (id_list [''111'', ''222'']) 200 ?r"
  let ?s = "initial\<lparr>sent := sent initial @
      [search_request ''cancer research'' 5, fetch_request ''111,222'']\<rparr>"
  have fa: "findall_descendant ''PubmedArticle'' ?r = [article_111, article_no_pmid]"
    by code_simp
  then have mem: "article_no_pmid \<in> set (findall_descendant ''PubmedArticle'' ?r)" by simp
  have np: "find_descendant ''PMID'' article_no_pmid = None" by code_simp
  have run: "fetch_papers_from_pubmed ?w ''cancer research'' 5 initial = (?s, Inl AttributeError)"
    using example_world_run [of "[''111'', ''222'']" 200 200 ?r "''cancer research''" 5 initial]
    by (simp add: fa article_111_body article_body_no_pmid [OF np])
  have "\<exists>e. fetch_papers_from_pubmed ?w ''cancer research'' 5 initial = (?s, Inl e) \<and>
          main ?w ''cancer research'' (Some ''out.csv'') initial = (?s, Some e)"
    using missing_pmid_aborts_batch [where w = ?w and query = "''cancer research''"
      and response = "\<lparr>status_code = 200, content = ''search body''\<rparr>"
      and search_data = "id_list [''111'', ''222'']"
      and paper_ids = "JArr (map JStr [''111'', ''222''])" and ids = "''111,222''"
      and response' = "\<lparr>status_code = 200, content = ''fetch body''\<rparr>"
      and xml_root = ?r and article = article_no_pmid and s = initial
      and outfile = "Some ''out.csv''"] mem np id_list_ids [of "[''111'', ''222'']"]
    by (simp add: example_world_http example_world_decode raise_for_status_def)
  with run have "main ?w ''cancer research'' (Some ''out.csv'') initial =
       (\<lparr>sent = [search_request ''cancer research'' 5, fetch_request ''111,222''],
         stdout = [], files = []\<rparr>, Some AttributeError)"
    by (auto simp: initial_def)
  with mem np show ?thesis by blast
qed

text \<open>
  C10. An author node that has both name elements, at least one of them without
  text, is not named \<open>Unknown\<close>: its display name is the interpolation of the two
  texts, with \<open>None\<close> written for a missing one.
\<close>

theorem blank_name_part_is_interpolated:
  assumes "find_child ''ForeName'' author = Some f"
    and "find_child ''LastName'' author = Some l"
    and "elem_text f = None \<or> elem_text l = None"
  shows "author_name author =
           (case elem_text f of None \<Rightarrow> ''None'' | Some given \<Rightarrow> given) @ '' '' @
           (case elem_text l of None \<Rightarrow> ''None'' | Some family \<Rightarrow> family)
         \<and> author_name author \<noteq> ''Unknown''"
proof -
  have n: "author_name author =
           (case elem_text f of None \<Rightarrow> ''None'' | Some given \<Rightarrow> given) @ '' '' @
           (case elem_text l of None \<Rightarrow> ''None'' | Some family \<Rightarrow> family)"
    using assms(1,2) by (simp add: author_name_def format_text_def)
  have "CHR '' '' \<in> set (author_name author)" unfolding n by simp
  moreover have "CHR '' '' \<notin> set ''Unknown''" by simp
  ultimately have "author_name author \<noteq> ''Unknown''" by metis
  with n show ?thesis by simp
qed

theorem blank_name_part_is_interpolated_witness:
  "find_child ''ForeName'' blank_forename = Some (leaf ''ForeName'' None)
   \<and> find_child ''LastName'' blank_forename = Some (leaf ''LastName'' (Some ''Doe''))
   \<and> elem_text (leaf ''ForeName'' None) = None
   \<and> author_name blank_forename = ''None Doe''"
proof -
  have f: "find_child ''ForeName'' blank_forename = Some (leaf ''ForeName'' None)"
    and l: "find_child ''LastName'' blank_forename = Some (leaf ''LastName'' (Some ''Doe''))"
    by code_simp+
  have t: "elem_text (leaf ''ForeName'' None) = None" by (simp add: leaf_def)
  then have "elem_text (leaf ''ForeName'' None) = None
      \<or> elem_text (leaf ''LastName'' (Some ''Doe'')) = None" ..
  from blank_name_part_is_interpolated [OF f l this]
  have "author_name blank_forename = ''None Doe''" by (simp add: leaf_def)
  with f l t show ?thesis by blast
qed

end
